theory Spec2Isabelle
  imports Main
begin

section \<open>JavaScript values\<close>

text \<open>
  The storage layer of \<^verbatim>\<open>storage/cassandra/db.js\<close> works on untyped request and schema
  objects. They are embedded as a datatype of JavaScript values. An object is an association
  list in property insertion order, which is the order \<^verbatim>\<open>for (k in o)\<close> and
  \<^verbatim>\<open>Object.keys\<close> enumerate (property names are assumed not to be array indices and not
  to be members of \<^verbatim>\<open>Object.prototype\<close>). Numbers are integers; the embedding follows the
  decimal text of a number (\<^verbatim>\<open>'' + n\<close>, \<^verbatim>\<open>o[n]\<close>) for the integers that are exact,
  up to \<^verbatim>\<open>2^53 - 1\<close> in magnitude.

  Two kinds of strings are kept symbolic, because the library that produces their text is
  not part of the repository: \<open>JUuid node clockseq msecs nsecs\<close> is the string returned by
  \<^verbatim>\<open>uuid.v1({node, clockseq, msecs, nsecs})\<close> of node-uuid, and \<open>JText v\<close> is the string
  returned by \<^verbatim>\<open>JSON.stringify(v)\<close>. A string is the list of its UTF-16 code units; the
  embedding has the code units below 256 (Basic Latin and Latin-1 Supplement), with the case
  conversion and the white space that ECMAScript defines on them.
\<close>

datatype jsval =
    JUndef
  | JNull
  | JBool bool
  | JNum int
  | JStr string
  | JUuid "nat list" nat int nat
  | JText jsval
  | JArr "jsval list"
  | JObj "(string \<times> jsval) list"

text \<open>Every \<^verbatim>\<open>throw\<close> of the source, the engine's \<^verbatim>\<open>TypeError\<close>, and \<open>Unmodelled\<close> for
  dynamically typed inputs whose coercions the embedding does not follow.\<close>

datatype error =
    TypeError
  | OperatorNotSupported string
  | InvalidPredicate jsval
  | IndexAttributeMissing string
  | TableNotFound
  | CantUpdateOrInsert
  | MissingIndexOrHash
  | IndexNotDefinedProperly
  | TableNameRequired
  | NoAttributeDefinitions
  | InvalidType jsval string
  | InvalidOrderDirection
  | Unmodelled

text \<open>A compiled statement \<^verbatim>\<open>{query: ..., params: ...}\<close>.\<close>

record stmt =
  query :: string
  params :: "jsval list"

fun truthy :: "jsval \<Rightarrow> bool" where
  "truthy JUndef = False"
| "truthy JNull = False"
| "truthy (JBool b) = b"
| "truthy (JNum n) = (n \<noteq> 0)"
| "truthy (JStr s) = (s \<noteq> [])"
| "truthy (JUuid nd cs ms ns) = True"
| "truthy (JText v) = True"
| "truthy (JArr xs) = True"
| "truthy (JObj kvs) = True"

fun nullish :: "jsval \<Rightarrow> bool" where
  "nullish JUndef = True"
| "nullish JNull = True"
| "nullish v = False"

text \<open>\<^verbatim>\<open>v.constructor === String\<close>\<close>

fun is_String :: "jsval \<Rightarrow> bool" where
  "is_String (JStr s) = True"
| "is_String (JUuid nd cs ms ns) = True"
| "is_String (JText v) = True"
| "is_String v = False"

text \<open>The strings whose text the embedding does not know.\<close>

fun symbolic :: "jsval \<Rightarrow> bool" where
  "symbolic (JUuid nd cs ms ns) = True"
| "symbolic (JText v) = True"
| "symbolic v = False"

text \<open>\<^verbatim>\<open>Array.isArray(v)\<close>\<close>

fun isArray :: "jsval \<Rightarrow> bool" where
  "isArray (JArr xs) = True"
| "isArray v = False"

definition digit_char :: "nat \<Rightarrow> char" where
  "digit_char d = char_of (48 + d)"

function show_nat :: "nat \<Rightarrow> string" where
  "show_nat n = (if n < 10 then [digit_char n] else show_nat (n div 10) @ [digit_char (n mod 10)])"
  by pat_completeness auto
termination
  by (relation "measure (\<lambda>n. n)") auto

declare show_nat.simps [simp del]

text \<open>The integers whose decimal text the embedding follows (\<^verbatim>\<open>Number.isSafeInteger\<close>).\<close>

definition safeInteger :: "int \<Rightarrow> bool" where
  "safeInteger n = (- 9007199254740991 \<le> n \<and> n \<le> 9007199254740991)"

definition show_int :: "int \<Rightarrow> string" where
  "show_int i = (if i < 0 then CHR ''-'' # show_nat (nat (- i)) else show_nat (nat i))"

text \<open>The indexed elements of an array or of a string, under their property names.\<close>

definition indexed :: "jsval list \<Rightarrow> (string \<times> jsval) list" where
  "indexed xs = zip (map show_nat [0..<length xs]) xs"

text \<open>Property read \<^verbatim>\<open>v[k]\<close> on a value that is not null or undefined: a missing property
  reads as \<^verbatim>\<open>undefined\<close>. Arrays and strings have their elements and their length. The
  text of a symbolic string is not known: the callers exclude it where it would be indexed.\<close>

fun js_get :: "jsval \<Rightarrow> string \<Rightarrow> jsval" where
  "js_get (JObj kvs) k = (case map_of kvs k of Some x \<Rightarrow> x | None \<Rightarrow> JUndef)"
| "js_get (JArr xs) k =
     (if k = ''length'' then JNum (int (length xs))
      else (case map_of (indexed xs) k of Some x \<Rightarrow> x | None \<Rightarrow> JUndef))"
| "js_get (JStr s) k =
     (if k = ''length'' then JNum (int (length s))
      else (case map_of (indexed (map (\<lambda>c. JStr [c]) s)) k of Some x \<Rightarrow> x | None \<Rightarrow> JUndef))"
| "js_get v k = JUndef"

text \<open>Property write \<^verbatim>\<open>o[k] = v\<close> on an object: an existing property keeps its place in
  the enumeration order, a new one is appended.\<close>

fun obj_set :: "(string \<times> jsval) list \<Rightarrow> string \<Rightarrow> jsval \<Rightarrow> (string \<times> jsval) list" where
  "obj_set [] k v = [(k, v)]"
| "obj_set ((k', v') # r) k v = (if k' = k then (k, v) # r else (k', v') # obj_set r k v)"

text \<open>The array of an object's own enumerable properties, as \<^verbatim>\<open>for (k in v)\<close> visits them.
  Looping over null, undefined, a number or a boolean visits nothing; an array is visited
  by its indices.\<close>

fun for_in :: "jsval \<Rightarrow> error + (string \<times> jsval) list" where
  "for_in (JObj kvs) = Inr kvs"
| "for_in (JArr xs) = Inr (indexed xs)"
| "for_in (JStr s) = Inr (indexed (map (\<lambda>c. JStr [c]) s))"
| "for_in (JUuid nd cs ms ns) = Inl Unmodelled"
| "for_in (JText v) = Inl Unmodelled"
| "for_in v = Inr []"

text \<open>Indexing \<^verbatim>\<open>v[i]\<close> with a numeric literal.\<close>

fun js_index :: "jsval \<Rightarrow> nat \<Rightarrow> error + jsval" where
  "js_index JUndef i = Inl TypeError"
| "js_index JNull i = Inl TypeError"
| "js_index (JUuid nd cs ms ns) i = Inl Unmodelled"
| "js_index (JText v) i = Inl Unmodelled"
| "js_index v i = Inr (js_get v (show_nat i))"

text \<open>The property names that every object inherits from \<^verbatim>\<open>Object.prototype\<close>: the
  operator \<^verbatim>\<open>in\<close> finds them in an object literal.\<close>

definition objectPrototypeNames :: "string list" where
  "objectPrototypeNames =
     [''constructor'', ''__defineGetter__'', ''__defineSetter__'', ''hasOwnProperty'',
      ''__lookupGetter__'', ''__lookupSetter__'', ''isPrototypeOf'', ''propertyIsEnumerable'',
      ''toString'', ''valueOf'', ''__proto__'', ''toLocaleString'']"

section \<open>Strings\<close>

text \<open>\<^verbatim>\<open>s.toLowerCase()\<close>: the letters \<^verbatim>\<open>A-Z\<close> and the capital letters of the Latin-1
  Supplement (U+00C0 to U+00DE without the multiplication sign U+00D7) are moved to their
  small letters, 32 code units further.\<close>

definition toLowerChar :: "char \<Rightarrow> char" where
  "toLowerChar c = (let n = (of_char c :: nat) in
     if (65 \<le> n \<and> n \<le> 90) \<or> (192 \<le> n \<and> n \<le> 222 \<and> n \<noteq> 215) then char_of (n + 32) else c)"

definition toLowerCase :: "string \<Rightarrow> string" where
  "toLowerCase s = map toLowerChar s"

text \<open>The character class \<^verbatim>\<open>[a-zA-Z0-9_]\<close>.\<close>

definition is_word_char :: "char \<Rightarrow> bool" where
  "is_word_char c = (let n = (of_char c :: nat) in
     (97 \<le> n \<and> n \<le> 122) \<or> (65 \<le> n \<and> n \<le> 90) \<or> (48 \<le> n \<and> n \<le> 57) \<or> n = 95)"

text \<open>The character class \<^verbatim>\<open>\s\<close>, which is also what \<^verbatim>\<open>trim\<close> removes: tab, line
  feed, vertical tab, form feed, carriage return, space and the no-break space U+00A0 (the
  other white space of ECMAScript is above U+00FF).\<close>

definition is_space :: "char \<Rightarrow> bool" where
  "is_space c = (let n = (of_char c :: nat) in n = 32 \<or> (9 \<le> n \<and> n \<le> 13) \<or> n = 160)"

fun join :: "string \<Rightarrow> string list \<Rightarrow> string" where
  "join sep [] = []"
| "join sep [x] = x"
| "join sep (x # y # r) = x @ sep @ join sep (y # r)"

definition dquote :: string where
  "dquote = [CHR 0x22]"

text \<open>
\<^verbatim>\<open>
function cassID (name) {
    if (/^[a-zA-Z0-9_]+$/.test(name)) {
        return '"' + name + '"';
    } else {
        return '"' + name.replace(/"/g, '""') + '"';
    }
}
\<close>
\<close>

definition cassID :: "string \<Rightarrow> string" where
  "cassID name =
     (if name \<noteq> [] \<and> list_all is_word_char name then dquote @ name @ dquote
      else dquote @ concat (map (\<lambda>c. if c = CHR 0x22 then dquote @ dquote else [c]) name) @ dquote)"

section \<open>Predicate compiler\<close>

text \<open>\<^verbatim>\<open>tidFromDate(date)\<close>: the v1 UUID of node 01:23:45:67:89:ab, clock sequence 0x1234,
  the date's milliseconds and no extra nanoseconds.\<close>

definition tidFromDate :: "int \<Rightarrow> jsval" where
  "tidFromDate date = JUuid [0x01, 0x23, 0x45, 0x67, 0x89, 0xab] 0x1234 date 0"

text \<open>One iteration of the loop of \<^verbatim>\<open>buildCondition\<close>: the fragment pushed onto
  \<^verbatim>\<open>conjunctions\<close> and the values pushed onto \<^verbatim>\<open>params\<close> for the attribute
  \<open>predKey\<close> with the predicate value \<open>predObj\<close>. A value whose constructor is neither
  \<^verbatim>\<open>String\<close> nor \<^verbatim>\<open>Object\<close> takes neither branch of the source: the fragment is the quoted
  name alone and nothing is bound.\<close>

definition condOp :: "string \<Rightarrow> string \<Rightarrow> jsval \<Rightarrow> error + (string \<times> jsval list)" where
  "condOp predKey predOp predArg =
     (let op = toLowerCase predOp; cql = cassID predKey in
      if op = ''eq'' then Inr (cql @ '' = ?'', [predArg])
      else if op = ''lt'' then Inr (cql @ '' < ?'', [predArg])
      else if op = ''gt'' then Inr (cql @ '' > ?'', [predArg])
      else if op = ''le'' then Inr (cql @ '' <= ?'', [predArg])
      else if op = ''ge'' then Inr (cql @ '' >= ?'', [predArg])
      else if op = ''ne'' then Inr (cql @ '' != ?'', [predArg])
      else if op = ''between'' then
        (case js_index predArg 0 of
           Inl e \<Rightarrow> Inl e
         | Inr lo \<Rightarrow>
            (case js_index predArg 1 of
               Inl e \<Rightarrow> Inl e
             | Inr hi \<Rightarrow> Inr (cql @ '' >= ?'' @ '' AND '' @ cassID predKey @ '' <= ?'', [lo, hi])))
      else Inl (OperatorNotSupported predOp))"

definition condEntry :: "jsval \<Rightarrow> string \<Rightarrow> jsval \<Rightarrow> error + (string \<times> jsval list)" where
  "condEntry pred predKey predObj =
     (if nullish predObj then Inl TypeError
      else if is_String predObj then Inr (cassID predKey @ '' = ?'', [predObj])
      else (case predObj of
              JObj kvs \<Rightarrow>
                (case kvs of
                   [(predOp, predArg)] \<Rightarrow> condOp predKey predOp predArg
                 | _ \<Rightarrow> Inl (InvalidPredicate pred))
            | _ \<Rightarrow> Inr (cassID predKey, [])))"

fun condLoop :: "jsval \<Rightarrow> (string \<times> jsval) list \<Rightarrow> error + (string list \<times> jsval list)" where
  "condLoop pred [] = Inr ([], [])"
| "condLoop pred ((k, v) # r) =
     (case condEntry pred k v of
        Inl e \<Rightarrow> Inl e
      | Inr (c, ps) \<Rightarrow>
         (case condLoop pred r of
            Inl e \<Rightarrow> Inl e
          | Inr (cs, qs) \<Rightarrow> Inr (c # cs, ps @ qs)))"

definition buildCondition :: "jsval \<Rightarrow> error + stmt" where
  "buildCondition pred =
     (case for_in pred of
        Inl e \<Rightarrow> Inl e
      | Inr entries \<Rightarrow>
         (case condLoop pred entries of
            Inl e \<Rightarrow> Inl e
          | Inr (conjunctions, ps) \<Rightarrow>
              Inr \<lparr>query = join '' AND '' conjunctions, params = ps\<rparr>))"

section \<open>Schema manager\<close>

text \<open>Coercion of a primitive value to a property name (\<^verbatim>\<open>o[v]\<close>). Values whose text is
  not known to the embedding (symbolic strings, arrays, objects, numbers that are not exact
  integers) are excluded by \<open>keyable\<close> before it is used.\<close>

fun keyable :: "jsval \<Rightarrow> bool" where
  "keyable JUndef = True"
| "keyable JNull = True"
| "keyable (JBool b) = True"
| "keyable (JNum n) = safeInteger n"
| "keyable (JStr s) = True"
| "keyable v = False"

fun key_of :: "jsval \<Rightarrow> string" where
  "key_of (JStr s) = s"
| "key_of (JNum n) = show_int n"
| "key_of (JBool b) = (if b then ''true'' else ''false'')"
| "key_of JNull = ''null''"
| "key_of JUndef = ''undefined''"
| "key_of v = []"

fun obj_entries :: "jsval \<Rightarrow> (string \<times> jsval) list" where
  "obj_entries (JObj kvs) = kvs"
| "obj_entries v = []"

text \<open>The range part of an index descriptor as an array: absent (falsy) is the empty
  array, a single name is wrapped.\<close>

definition normRange :: "jsval \<Rightarrow> jsval list" where
  "normRange r = (if truthy r then (case r of JArr xs \<Rightarrow> xs | _ \<Rightarrow> [r]) else [])"

text \<open>
\<^verbatim>\<open>
function validateSchema(req) {
    if (!req.index || !req.index.hash) {
        throw new Error("Missing index or hash key in table schema");
    }
    var rangeIndex = req.index.range || [];
    if (!Array.isArray(rangeIndex)) {
        rangeIndex = [req.index.range];
    }
    return rangeIndex;
}
\<close>
\<close>

definition validateSchema :: "jsval \<Rightarrow> error + jsval list" where
  "validateSchema req =
     (let index = js_get req ''index'' in
      if \<not> truthy index \<or> \<not> truthy (js_get index ''hash'') then Inl MissingIndexOrHash
      else Inr (normRange (js_get index ''range'')))"

text \<open>The loops of \<^verbatim>\<open>generateIndexSchema\<close>, in the order of the source. \<open>attributes\<close> and
  \<open>ia\<close> (\<^verbatim>\<open>_indexAttributes\<close>) are the objects under construction, \<open>rangeCols\<close> (\<^verbatim>\<open>range\<close>) the
  companion's clustering list.\<close>

text \<open>\<^verbatim>\<open>range.forEach(function(items){ _indexAttributes[items] = true; });\<close>\<close>

fun markRange :: "jsval list \<Rightarrow> (string \<times> jsval) list \<Rightarrow> (string \<times> jsval) list" where
  "markRange [] ia = ia"
| "markRange (item # r) ia = markRange r (obj_set ia (key_of item) (JBool True))"

text \<open>
\<^verbatim>\<open>
if (!attributes[req.index.hash] && range.indexOf(req.index.hash) === -1) {
    range.push(req.index.hash);
}
\<close>
  The primary hash key is pushed onto \<^verbatim>\<open>range\<close> only; \<^verbatim>\<open>_indexAttributes\<close> is not touched.
\<close>

definition addPrimaryHash :: "(string \<times> jsval) list \<Rightarrow> jsval \<Rightarrow> jsval list \<Rightarrow> jsval list" where
  "addPrimaryHash attributes phash rangeCols =
     (if \<not> truthy (js_get (JObj attributes) (key_of phash)) \<and> phash \<notin> set rangeCols
      then rangeCols @ [phash] else rangeCols)"

text \<open>
\<^verbatim>\<open>
rangeIndex.forEach(function(att) {
    if (!attributes[att] && range.indexOf(att) === -1) {
        range.push(att);
        _indexAttributes[att] = true;
    }
});
\<close>
\<close>

fun addPrimaryRange :: "(string \<times> jsval) list \<Rightarrow> jsval list \<Rightarrow>
    jsval list \<times> (string \<times> jsval) list \<Rightarrow> jsval list \<times> (string \<times> jsval) list" where
  "addPrimaryRange attributes [] (rangeCols, ia) = (rangeCols, ia)"
| "addPrimaryRange attributes (att # r) (rangeCols, ia) =
     (if \<not> truthy (js_get (JObj attributes) (key_of att)) \<and> att \<notin> set rangeCols
      then addPrimaryRange attributes r (rangeCols @ [att], obj_set ia (key_of att) (JBool True))
      else addPrimaryRange attributes r (rangeCols, ia))"

text \<open>
\<^verbatim>\<open>
range.forEach(function(att) {
    if (!attributes[att]) {
        attributes[att] = req.attributes[att];
    }
    if (attributes[att] === 'timeuuid') {
        hasTid = true;
    }
});
\<close>
\<close>

fun pullTypes :: "jsval \<Rightarrow> jsval list \<Rightarrow> (string \<times> jsval) list \<times> bool \<Rightarrow>
    (string \<times> jsval) list \<times> bool" where
  "pullTypes reqAttributes [] (attributes, hasTid) = (attributes, hasTid)"
| "pullTypes reqAttributes (att # r) (attributes, hasTid) =
     (let attributes' =
            (if \<not> truthy (js_get (JObj attributes) (key_of att))
             then obj_set attributes (key_of att) (js_get reqAttributes (key_of att))
             else attributes)
      in pullTypes reqAttributes r
           (attributes', hasTid \<or> js_get (JObj attributes') (key_of att) = JStr ''timeuuid''))"

text \<open>
\<^verbatim>\<open>
index.proj.forEach(function(attr) {
    if (!attributes[attr]) {
        attributes[attr] = req.attributes[attr];
    }
});
\<close>
\<close>

fun copyProj :: "jsval \<Rightarrow> jsval list \<Rightarrow> (string \<times> jsval) list \<Rightarrow> (string \<times> jsval) list" where
  "copyProj reqAttributes [] attributes = attributes"
| "copyProj reqAttributes (attr # r) attributes =
     copyProj reqAttributes r
       (if \<not> truthy (js_get (JObj attributes) (key_of attr))
        then obj_set attributes (key_of attr) (js_get reqAttributes (key_of attr))
        else attributes)"

definition projList :: "jsval \<Rightarrow> jsval list" where
  "projList p = (case p of JArr xs \<Rightarrow> xs | _ \<Rightarrow> [])"

text \<open>
  \<^verbatim>\<open>generateIndexSchema(req, indexName)\<close>. The function writes to the index descriptor
  \<^verbatim>\<open>req.secondaryIndexes[indexName]\<close> (its \<^verbatim>\<open>static\<close> and \<^verbatim>\<open>range\<close> properties), which
  is part of the parent schema \<open>req\<close> (\<open>descriptor\<close> reads it); the embedding returns the parent schema after these
  writes together with the companion schema. The schema is a tree (as it is after
  \<^verbatim>\<open>JSON.parse\<close>): the descriptor's range array is not shared with the primary index.
  \<open>defaultConsistency\<close> is \<^verbatim>\<open>cass.types.consistencies.one\<close> of the driver. The index
  descriptors are the properties of an object (not the elements of an array).
\<close>

definition descriptor :: "jsval \<Rightarrow> string \<Rightarrow> jsval" where
  "descriptor schema indexName = js_get (js_get schema ''secondaryIndexes'') indexName"

text \<open>
\<^verbatim>\<open>
var attributes = {
    __consistentUpTo: 'timeuuid',
    __tombstone: 'boolean'
};
...
attributes[index.hash] = req.attributes[index.hash];
\<close>
\<close>

definition companionBase :: "jsval \<Rightarrow> jsval \<Rightarrow> (string \<times> jsval) list" where
  "companionBase reqAttributes hash =
     obj_set [(''__consistentUpTo'', JStr ''timeuuid''), (''__tombstone'', JStr ''boolean'')]
       (key_of hash) (js_get reqAttributes (key_of hash))"

text \<open>The companion's \<open>(attributes, range, _indexAttributes)\<close>: the body of the function
  from \<^verbatim>\<open>var attributes = {...}\<close> to the projections.\<close>

definition companionParts :: "jsval \<Rightarrow> jsval \<Rightarrow> jsval \<Rightarrow> jsval list \<Rightarrow> jsval list \<Rightarrow> jsval \<Rightarrow>
    (string \<times> jsval) list \<times> jsval list \<times> (string \<times> jsval) list" where
  "companionParts reqAttributes hash phash range0 rangeIndex proj =
     (let attributes1 = companionBase reqAttributes hash;
          ia1 = markRange range0 [(key_of hash, JBool True)];
          range1 = addPrimaryHash attributes1 phash range0;
          (range2, ia2) = addPrimaryRange attributes1 rangeIndex (range1, ia1);
          (attributes2, hasTid) = pullTypes reqAttributes range2 (attributes1, False);
          attributes3 = (if \<not> hasTid then obj_set attributes2 ''_tid'' (JStr ''timeuuid'')
                         else attributes2);
          range3 = (if \<not> hasTid then range2 @ [JStr ''_tid''] else range2);
          ia3 = (if \<not> hasTid then obj_set ia2 ''_tid'' (JStr ''timeuuid'') else ia2);
          attributes4 = (if truthy proj \<and> isArray proj
                         then copyProj reqAttributes (projList proj) attributes3
                         else attributes3)
      in (attributes4, range3, ia3))"

text \<open>The descriptor after \<^verbatim>\<open>index.static = '__consistentUpTo'\<close> and
  \<^verbatim>\<open>index.range = range\<close>, and the parent schema that holds it.\<close>

definition closedDescriptor :: "jsval \<Rightarrow> jsval list \<Rightarrow> jsval" where
  "closedDescriptor index rangeCols =
     JObj (obj_set (obj_set (obj_entries index) ''static'' (JStr ''__consistentUpTo''))
             ''range'' (JArr rangeCols))"

definition setDescriptor :: "jsval \<Rightarrow> string \<Rightarrow> jsval \<Rightarrow> jsval" where
  "setDescriptor req indexName index =
     JObj (obj_set (obj_entries req) ''secondaryIndexes''
       (JObj (obj_set (obj_entries (js_get req ''secondaryIndexes'')) indexName index)))"

definition generateIndexSchema :: "jsval \<Rightarrow> jsval \<Rightarrow> string \<Rightarrow> error + (jsval \<times> jsval)" where
  "generateIndexSchema defaultConsistency req indexName =
     (if nullish (js_get req ''secondaryIndexes'') then Inl TypeError
      else if symbolic (js_get req ''secondaryIndexes'') \<or> isArray (js_get req ''secondaryIndexes'')
      then Inl Unmodelled
      else if nullish (descriptor req indexName) then Inl TypeError
      else if \<not> truthy (js_get (descriptor req indexName) ''hash'') then Inl IndexNotDefinedProperly
      else
      (case validateSchema req of
         Inl e \<Rightarrow> Inl e
       | Inr rangeIndex \<Rightarrow>
          if \<not> list_all keyable
                 (js_get (descriptor req indexName) ''hash''
                  # js_get (js_get req ''index'') ''hash''
                  # normRange (js_get (descriptor req indexName) ''range'')
                  @ rangeIndex @ projList (js_get (descriptor req indexName) ''proj''))
          then Inl Unmodelled
          else if nullish (js_get req ''attributes'') then Inl TypeError
          else
           (case companionParts (js_get req ''attributes'')
                   (js_get (descriptor req indexName) ''hash'')
                   (js_get (js_get req ''index'') ''hash'')
                   (normRange (js_get (descriptor req indexName) ''range''))
                   rangeIndex
                   (js_get (descriptor req indexName) ''proj'') of
              (attributes, rangeCols, ia) \<Rightarrow>
                Inr (setDescriptor req indexName (closedDescriptor (descriptor req indexName) rangeCols),
                     JObj [(''name'', JStr indexName),
                           (''attributes'', JObj attributes),
                           (''index'', closedDescriptor (descriptor req indexName) rangeCols),
                           (''consistency'', defaultConsistency),
                           (''_indexAttributes'', JObj ia)]))))"

text \<open>The loop of \<^verbatim>\<open>_getSchema\<close> over the secondary indexes:
\<^verbatim>\<open>
for (var indexName in schema.secondaryIndexes) {
    var indexSchema = generateIndexSchema(schema, indexName);
    schema._restbase.indexSchema[indexName] = indexSchema;
}
\<close>
\<close>

definition setIndexSchema :: "jsval \<Rightarrow> string \<Rightarrow> jsval \<Rightarrow> jsval" where
  "setIndexSchema schema indexName indexSchema =
     (let restbase = obj_entries (js_get schema ''_restbase'');
          cache = obj_entries (js_get (JObj restbase) ''indexSchema'')
      in JObj (obj_set (obj_entries schema) ''_restbase''
           (JObj (obj_set restbase ''indexSchema'' (JObj (obj_set cache indexName indexSchema))))))"

fun generateAll :: "jsval \<Rightarrow> string list \<Rightarrow> jsval \<Rightarrow> error + jsval" where
  "generateAll defaultConsistency [] schema = Inr schema"
| "generateAll defaultConsistency (indexName # r) schema =
     (case generateIndexSchema defaultConsistency schema indexName of
        Inl e \<Rightarrow> Inl e
      | Inr (schema', indexSchema) \<Rightarrow>
          generateAll defaultConsistency r (setIndexSchema schema' indexName indexSchema))"

text \<open>
  The enrichment that \<^verbatim>\<open>_getSchema\<close> applies to the parsed schema document: the companion
  schemas are synthesized into \<^verbatim>\<open>schema._restbase.indexSchema\<close>, then the primary
  \<^verbatim>\<open>_indexAttributes\<close> are computed from \<^verbatim>\<open>schema.index\<close>.
\<close>

definition enrich :: "jsval \<Rightarrow> jsval \<Rightarrow> error + jsval" where
  "enrich defaultConsistency parsed =
     (case parsed of
        JObj kvs \<Rightarrow>
          (let schema1 = JObj (obj_set kvs ''_restbase'' (JObj [(''indexSchema'', JObj [])]));
               secondaryIndexes = js_get schema1 ''secondaryIndexes''
           in
           (case (if truthy secondaryIndexes
                  then (case secondaryIndexes of
                          JObj sis \<Rightarrow> generateAll defaultConsistency (map fst sis) schema1
                        | _ \<Rightarrow> Inl Unmodelled)
                  else Inr schema1) of
              Inl e \<Rightarrow> Inl e
            | Inr schema2 \<Rightarrow>
               (let index = js_get schema2 ''index'' in
                if nullish index then Inl TypeError else
                (let hash = js_get index ''hash'';
                     rangeColumn = js_get index ''range''
                 in
                 if \<not> list_all keyable (hash # normRange rangeColumn) then Inl Unmodelled
                 else
                  (let ia0 = [(key_of hash, JBool True)];
                       ia = (if isArray rangeColumn then markRange (projList rangeColumn) ia0
                             else if truthy rangeColumn
                             then obj_set ia0 (key_of rangeColumn) (JBool True)
                             else ia0);
                       restbase = obj_entries (js_get schema2 ''_restbase'')
                   in Inr (JObj (obj_set (obj_entries schema2) ''_restbase''
                            (JObj (obj_set restbase ''_indexAttributes'' (JObj ia))))))))))
      | JUndef \<Rightarrow> Inl TypeError
      | JNull \<Rightarrow> Inl TypeError
      | _ \<Rightarrow> Inl Unmodelled)"

text \<open>The value of \<^verbatim>\<open>JSON.parse(JSON.stringify(v))\<close>: properties whose value is
  \<^verbatim>\<open>undefined\<close> are left out of objects, and \<^verbatim>\<open>undefined\<close> array elements become
  \<^verbatim>\<open>null\<close>.\<close>

fun json_roundtrip :: "jsval \<Rightarrow> jsval" where
  "json_roundtrip (JArr xs) = JArr (map (\<lambda>x. if x = JUndef then JNull else json_roundtrip x) xs)"
| "json_roundtrip (JObj kvs) =
     JObj (map (\<lambda>kv. (fst kv, json_roundtrip (snd kv))) (filter (\<lambda>kv. snd kv \<noteq> JUndef) kvs))"
| "json_roundtrip v = v"

section \<open>Write planner\<close>

text \<open>The schema of the \<^verbatim>\<open>meta\<close> table, \<^verbatim>\<open>DB.prototype.infoSchema\<close>.\<close>

definition infoSchema :: jsval where
  "infoSchema = JObj [(''name'', JStr ''meta''),
     (''attributes'', JObj [(''key'', JStr ''string''), (''value'', JStr ''json'')]),
     (''index'', JObj [(''hash'', JStr ''key'')]),
     (''_restbase'', JObj [(''_indexAttributes'', JObj [(''key'', JBool True)])])]"

text \<open>
\<^verbatim>\<open>
for (var key in _indexAttributes) {
    if (key === '_tid') {
        indexKVMap[key] = tidFromDate(new Date());
    } else if (!req.attributes[key]) {
        throw new Error("Index attribute " + key + " missing");
    } else {
        indexKVMap[key] = req.attributes[key];
    }
}
\<close>
  \<open>now\<close> is the time \<^verbatim>\<open>new Date().getTime()\<close> reads.
\<close>

fun indexKVLoop :: "int \<Rightarrow> jsval \<Rightarrow> string list \<Rightarrow> error + (string \<times> jsval) list" where
  "indexKVLoop now reqAttributes [] = Inr []"
| "indexKVLoop now reqAttributes (key # r) =
     (if key = ''_tid'' then
        (case indexKVLoop now reqAttributes r of
           Inl e \<Rightarrow> Inl e
         | Inr m \<Rightarrow> Inr ((key, tidFromDate now) # m))
      else if nullish reqAttributes then Inl TypeError
      else if \<not> truthy (js_get reqAttributes key) then Inl (IndexAttributeMissing key)
      else
        (case indexKVLoop now reqAttributes r of
           Inl e \<Rightarrow> Inl e
         | Inr m \<Rightarrow> Inr ((key, js_get reqAttributes key) # m)))"

text \<open>
\<^verbatim>\<open>
for (key in req.attributes) {
    var val = req.attributes[key];
    if (val !== undefined && schema.attributes[key]) {
        if (val.constructor === Object) {
            val = JSON.stringify(val);
        }
        if (!_indexAttributes[key]) {
            keys.push(key);
            params.push(val);
        }
        placeholders.push('?');
    }
}
\<close>
  The result is \<open>(keys, params, placeholders)\<close>.
\<close>

text \<open>The value bound for an attribute: an object is bound as its JSON text.\<close>

definition bindValue :: "jsval \<Rightarrow> jsval" where
  "bindValue v = (case v of JObj kvs \<Rightarrow> JText v | _ \<Rightarrow> v)"

fun attrLoop :: "jsval \<Rightarrow> jsval \<Rightarrow> (string \<times> jsval) list \<Rightarrow>
    error + (string list \<times> jsval list \<times> string list)" where
  "attrLoop schemaAttributes ia [] = Inr ([], [], [])"
| "attrLoop schemaAttributes ia ((key, v) # r) =
     (if v \<noteq> JUndef then
        (if nullish schemaAttributes then Inl TypeError
         else if truthy (js_get schemaAttributes key) then
           (if v = JNull then Inl TypeError
            else
              (case attrLoop schemaAttributes ia r of
                 Inl e \<Rightarrow> Inl e
               | Inr (keys, ps, phs) \<Rightarrow>
                   if \<not> truthy (js_get ia key)
                   then Inr (key # keys, bindValue v # ps, ''?'' # phs)
                   else Inr (keys, ps, ''?'' # phs)))
         else attrLoop schemaAttributes ia r)
      else attrLoop schemaAttributes ia r)"

text \<open>\<^verbatim>\<open>s.trim()\<close>\<close>

definition trim :: "string \<Rightarrow> string" where
  "trim s = rev (dropWhile is_space (rev (dropWhile is_space s)))"

text \<open>\<^verbatim>\<open>s.split(/\s+/)\<close>\<close>

function splitWs :: "string \<Rightarrow> string list" where
  "splitWs s =
     (let w = takeWhile (\<lambda>c. \<not> is_space c) s;
          r = dropWhile (\<lambda>c. \<not> is_space c) s
      in if r = [] then [w] else w # splitWs (dropWhile is_space r))"
  by pat_completeness auto
termination
proof (relation "measure length")
  show "wf (measure length)" by simp
next
  fix s :: string and w r
  assume r: "r = dropWhile (\<lambda>c. \<not> is_space c) s" and ne: "r \<noteq> []"
  from ne obtain c r' where cr: "r = c # r'" by (cases r) auto
  have "dropWhile (\<lambda>c. \<not> is_space c) s \<noteq> []" using r ne by simp
  from hd_dropWhile [OF this] have "is_space (hd r)" unfolding r by simp
  then have "is_space c" unfolding cr by simp
  then have "length (dropWhile is_space r) \<le> length r'"
    using cr by (simp add: length_dropWhile_le)
  moreover have "length r \<le> length s" using r by (simp add: length_dropWhile_le)
  ultimately show "(dropWhile is_space r, s) \<in> measure length" using cr by simp
qed

declare splitWs.simps [simp del]

text \<open>\<^verbatim>\<open>req.if.trim().split(/\s+/).join(' ').toLowerCase()\<close>\<close>

definition normalizeIf :: "string \<Rightarrow> string" where
  "normalizeIf s = toLowerCase (join '' '' (splitWs (trim s)))"

text \<open>
  The parts of \<^verbatim>\<open>DB.prototype.buildPutQuery(req, keyspace, table, schema)\<close>, in the
  order of the source.
\<close>

text \<open>
\<^verbatim>\<open>
if (req.if && req.if.constructor === String) {
    req.if = req.if.trim().split(/\s+/).join(' ').toLowerCase();
}
\<close>
  The request after the write.
\<close>

definition normalizeReqIf :: "jsval \<Rightarrow> error + jsval" where
  "normalizeReqIf req =
     (case js_get req ''if'' of
        JStr s \<Rightarrow> if s \<noteq> [] then Inr (JObj (obj_set (obj_entries req) ''if'' (JStr (normalizeIf s))))
                  else Inr req
      | JUuid nd cs ms ns \<Rightarrow> Inl Unmodelled
      | JText t \<Rightarrow> Inl Unmodelled
      | _ \<Rightarrow> Inr req)"

text \<open>
\<^verbatim>\<open>
if (!keys.length || req.if === 'not exists') {
    var proj = Object.keys(_indexAttributes).concat(keys).map(cassID).join(',');
    cql = 'insert into ' + cassID(keyspace) + '.' + cassID(table)
            + ' (' + proj + ') values (';
    cql += placeholders.join(',') + ')';
    params = condRes.params.concat(params);
} else if ( keys.length ) {
    var updateProj = keys.map(cassID).join(' = ?,') + ' = ? ';
    cql += 'update ' + cassID(keyspace) + '.' + cassID(table) +
           ' set ' + updateProj + ' where ';
    cql += condRes.query;
    params = params.concat(condRes.params);
} else {
    throw new Error("Can't Update or Insert");
}
\<close>
\<close>

definition putStatement :: "string \<Rightarrow> string \<Rightarrow> string list \<Rightarrow> string list \<Rightarrow> jsval list \<Rightarrow>
    string list \<Rightarrow> jsval \<Rightarrow> stmt \<Rightarrow> error + stmt" where
  "putStatement keyspace table indexKeys keys ps phs reqIf condRes =
     (if keys = [] \<or> reqIf = JStr ''not exists'' then
        Inr \<lparr>query = ''insert into '' @ cassID keyspace @ ''.'' @ cassID table
                       @ '' ('' @ join '','' (map cassID (indexKeys @ keys))
                       @ '') values ('' @ join '','' phs @ '')'',
             params = params condRes @ ps\<rparr>
      else if keys \<noteq> [] then
        Inr \<lparr>query = ''update '' @ cassID keyspace @ ''.'' @ cassID table
                       @ '' set '' @ join '' = ?,'' (map cassID keys) @ '' = ? ''
                       @ '' where '' @ query condRes,
             params = ps @ params condRes\<rparr>
      else Inl CantUpdateOrInsert)"

text \<open>
\<^verbatim>\<open>
if (req.if) {
    if (req.if === 'not exists') {
        cql += ' if not exists ';
    } else {
        cql += ' if ';
        condResult = buildCondition(req.if);
        cql += condResult.query;
        params = params.concat(condResult.params);
    }
}
return {query: cql, params: params};
\<close>
\<close>

definition putCondition :: "jsval \<Rightarrow> stmt \<Rightarrow> error + stmt" where
  "putCondition reqIf st =
     (if truthy reqIf then
        (if reqIf = JStr ''not exists''
         then Inr \<lparr>query = query st @ '' if not exists '', params = params st\<rparr>
         else
           (case buildCondition reqIf of
              Inl e \<Rightarrow> Inl e
            | Inr condResult \<Rightarrow>
                Inr \<lparr>query = query st @ '' if '' @ query condResult,
                     params = params st @ params condResult\<rparr>))
      else Inr st)"

text \<open>The key set that \<^verbatim>\<open>buildPutQuery\<close> selects for the table.\<close>

definition putIndexAttributes :: "string \<Rightarrow> jsval \<Rightarrow> jsval" where
  "putIndexAttributes table schema =
     (if table = ''meta'' \<or> table = ''data''
      then js_get (js_get schema ''_restbase'') ''_indexAttributes''
      else js_get schema ''_indexAttributes'')"

definition putTable :: "string \<Rightarrow> string" where
  "putTable table = (if table = ''meta'' \<or> table = ''data'' then table else ''i_'' @ table)"

text \<open>The body of \<^verbatim>\<open>buildPutQuery\<close> once \<^verbatim>\<open>_indexAttributes\<close> is known to be an object
  with the properties \<open>iakvs\<close>.\<close>

definition putBody :: "int \<Rightarrow> jsval \<Rightarrow> string \<Rightarrow> string \<Rightarrow> jsval \<Rightarrow> (string \<times> jsval) list \<Rightarrow>
    error + (jsval \<times> stmt)" where
  "putBody now req keyspace table schema iakvs =
     (case indexKVLoop now (js_get req ''attributes'') (map fst iakvs) of
        Inl e \<Rightarrow> Inl e
      | Inr indexKVMap \<Rightarrow>
         (case for_in (js_get req ''attributes'') of
            Inl e \<Rightarrow> Inl e
          | Inr attrs \<Rightarrow>
             (case attrLoop (js_get schema ''attributes'') (JObj iakvs) attrs of
                Inl e \<Rightarrow> Inl e
              | Inr (keys, ps, phs) \<Rightarrow>
                 (case normalizeReqIf req of
                    Inl e \<Rightarrow> Inl e
                  | Inr req' \<Rightarrow>
                     (case buildCondition (JObj indexKVMap) of
                        Inl e \<Rightarrow> Inl e
                      | Inr condRes \<Rightarrow>
                         (case putStatement keyspace table (map fst iakvs) keys ps phs
                                 (js_get req' ''if'') condRes of
                            Inl e \<Rightarrow> Inl e
                          | Inr st \<Rightarrow>
                             (case putCondition (js_get req' ''if'') st of
                                Inl e \<Rightarrow> Inl e
                              | Inr st' \<Rightarrow> Inr (req', st'))))))))"

text \<open>
  \<^verbatim>\<open>DB.prototype.buildPutQuery(req, keyspace, table, schema)\<close>. The source overwrites
  \<^verbatim>\<open>req.if\<close> with its normal form; the embedding returns the request after this write
  together with the statement.
\<close>

definition buildPutQuery :: "int \<Rightarrow> jsval \<Rightarrow> string \<Rightarrow> string \<Rightarrow> jsval \<Rightarrow> error + (jsval \<times> stmt)" where
  "buildPutQuery now req keyspace table schema =
     (if nullish schema then Inl TypeError
      else if (table = ''meta'' \<or> table = ''data'') \<and> nullish (js_get schema ''_restbase'')
      then Inl TypeError
      else if \<not> truthy schema then Inl TableNotFound
      else
        (case putIndexAttributes table schema of
           JObj iakvs \<Rightarrow> putBody now req keyspace (putTable table) schema iakvs
         | JUndef \<Rightarrow> Inl TypeError
         | JNull \<Rightarrow> Inl TypeError
         | _ \<Rightarrow> Inl Unmodelled))"

text \<open>A call of the driver: \<^verbatim>\<open>client.execute_p(query, params, options)\<close> or
  \<^verbatim>\<open>client.batch_p(batch, options)\<close>.\<close>

datatype driver_call =
    Execute_p string "jsval list" jsval
  | Batch_p "stmt list" jsval

text \<open>
\<^verbatim>\<open>
DB.prototype.executeCql = function(batch, consistency, thenCB) {
    if (batch.length === 1) {
        return this.client.execute_p(batch[0].query, batch[0].params,
                                     {consistency: consistency, prepared: true}).then(thenCB);
    } else {
        return this.client.batch_p(batch, {consistency: consistency, prepared: true}).then(thenCB);
    }
};
\<close>
  The embedding gives the call that is dispatched.
\<close>

definition executeCql :: "stmt list \<Rightarrow> jsval \<Rightarrow> driver_call" where
  "executeCql batch consistency =
     (let options = JObj [(''consistency'', consistency), (''prepared'', JBool True)] in
      if length batch = 1
      then Execute_p (query (hd batch)) (params (hd batch)) options
      else Batch_p batch options)"

text \<open>The fan-out loop of \<^verbatim>\<open>_put\<close>:
\<^verbatim>\<open>
for (var item in schema.secondaryIndexes) {
    schema = this.schemaCache[keyspace]._restbase.indexSchema[item];
    if (!schema) {
        throw new Error('Table not found!');
    }
    queryResult = this.buildPutQuery(req, keyspace, item, schema);
    batch.push(queryResult);
}
\<close>
  \<open>clock n\<close> is the time read while the statement at position \<open>n\<close> of the batch is built.
\<close>

fun fanOut :: "(string \<Rightarrow> jsval) \<Rightarrow> (nat \<Rightarrow> int) \<Rightarrow> string \<Rightarrow> nat \<Rightarrow> jsval \<Rightarrow> string list \<Rightarrow>
    error + stmt list" where
  "fanOut schemaCache clock keyspace n req [] = Inr []"
| "fanOut schemaCache clock keyspace n req (item # r) =
     (let cached = schemaCache keyspace in
      if nullish cached then Inl TypeError
      else if nullish (js_get cached ''_restbase'') then Inl TypeError
      else if nullish (js_get (js_get cached ''_restbase'') ''indexSchema'') then Inl TypeError
      else
        (let schema = js_get (js_get (js_get cached ''_restbase'') ''indexSchema'') item in
         if \<not> truthy schema then Inl TableNotFound
         else
           (case buildPutQuery (clock n) req keyspace item schema of
              Inl e \<Rightarrow> Inl e
            | Inr (req', queryResult) \<Rightarrow>
               (case fanOut schemaCache clock keyspace (Suc n) req' r of
                  Inl e \<Rightarrow> Inl e
                | Inr batch \<Rightarrow> Inr (queryResult # batch)))))"

text \<open>
  \<^verbatim>\<open>DB.prototype._put(keyspace, req, consistency, table)\<close>: the driver call it dispatches.
  The promise it returns resolves to \<^verbatim>\<open>{status: 201}\<close> when the driver's call resolves.
\<close>

definition priv_put :: "(string \<Rightarrow> jsval) \<Rightarrow> (nat \<Rightarrow> int) \<Rightarrow> string \<Rightarrow> jsval \<Rightarrow> jsval \<Rightarrow> jsval \<Rightarrow>
    error + driver_call" where
  "priv_put schemaCache clock keyspace req consistency table0 =
     (let table = (if \<not> truthy table0 then JStr ''data'' else table0);
          schema = (if table = JStr ''meta'' then infoSchema
                    else if table = JStr ''data'' then schemaCache keyspace
                    else JUndef)
      in
      if \<not> truthy schema then Inl TableNotFound
      else
        (case buildPutQuery (clock 0) req keyspace (key_of table) schema of
           Inl e \<Rightarrow> Inl e
         | Inr (req', queryResult) \<Rightarrow>
            (let secondaryIndexes = js_get schema ''secondaryIndexes'' in
             if truthy secondaryIndexes then
               (case for_in secondaryIndexes of
                  Inl e \<Rightarrow> Inl e
                | Inr sis \<Rightarrow>
                   (case fanOut schemaCache clock keyspace 1 req' (map fst sis) of
                      Inl e \<Rightarrow> Inl e
                    | Inr batch \<Rightarrow> Inr (executeCql (queryResult # batch) consistency)))
             else Inr (executeCql [queryResult] consistency))))"

section \<open>Read planner\<close>

fun isStr :: "jsval \<Rightarrow> bool" where
  "isStr (JStr s) = True"
| "isStr v = False"

text \<open>
\<^verbatim>\<open>
var proj = '*';
if (req.proj) {
    if (Array.isArray(req.proj)) {
        proj = req.proj.map(cassID).join(',');
    } else if (req.proj.constructor === String) {
        proj = cassID(req.proj);
    }
} else if (req.order) {
    var cachedSchema = this.schemaCache[keyspace];
    if (cachedSchema) {
        proj = Object.keys(cachedSchema.attributes).map(cassID).join(',');
    }
}
\<close>
\<close>

definition getProj :: "(string \<Rightarrow> jsval) \<Rightarrow> string \<Rightarrow> jsval \<Rightarrow> error + string" where
  "getProj schemaCache keyspace req =
     (let p = js_get req ''proj'' in
      if truthy p then
        (case p of
           JArr xs \<Rightarrow> if list_all isStr xs then Inr (join '','' (map (\<lambda>x. cassID (key_of x)) xs))
                      else Inl Unmodelled
         | JStr name \<Rightarrow> Inr (cassID name)
         | JUuid nd cs ms ns \<Rightarrow> Inl Unmodelled
         | JText t \<Rightarrow> Inl Unmodelled
         | _ \<Rightarrow> Inr ''*'')
      else if truthy (js_get req ''order'') then
        (let cachedSchema = schemaCache keyspace in
         if truthy cachedSchema then
           (case js_get cachedSchema ''attributes'' of
              JObj kvs \<Rightarrow> Inr (join '','' (map cassID (map fst kvs)))
            | JUndef \<Rightarrow> Inl TypeError
            | JNull \<Rightarrow> Inl TypeError
            | _ \<Rightarrow> Inl Unmodelled)
         else Inr ''*'')
      else Inr ''*'')"

text \<open>
\<^verbatim>\<open>
if (!table) { table = 'data'; }
...
if (req.index) { table = 'i_' + req.index; }
\<close>
\<close>

definition getTable :: "jsval \<Rightarrow> jsval \<Rightarrow> error + string" where
  "getTable req table0 =
     (let table = (if \<not> truthy table0 then JStr ''data'' else table0);
          idx = js_get req ''index''
      in
      if truthy idx then
        (if keyable idx then Inr (''i_'' @ key_of idx) else Inl Unmodelled)
      else if isStr table then Inr (key_of table) else Inl Unmodelled)"

text \<open>
\<^verbatim>\<open>
if (req.order) {
    var schema = this.schemaCache[keyspace];
    var rangeColumn;
    if (schema) {
        rangeColumn = schema.index.range;
        if (Array.isArray(rangeColumn)) { rangeColumn = rangeColumn[0]; }
    } else {
        rangeColumn = '_tid';
    }
    var dir = req.order.toLowerCase();
    if (rangeColumn && dir in {'asc':1, 'desc':1}) {
        cql += ' order by ' + cassID(rangeColumn) + ' ' + dir;
    }
}
\<close>
  The operator \<^verbatim>\<open>in\<close> finds \<^verbatim>\<open>asc\<close>, \<^verbatim>\<open>desc\<close> and the names the table inherits.
\<close>

definition inOrderTable :: "string \<Rightarrow> bool" where
  "inOrderTable dir = (dir = ''asc'' \<or> dir = ''desc'' \<or> dir \<in> set objectPrototypeNames)"

definition getOrder :: "(string \<Rightarrow> jsval) \<Rightarrow> string \<Rightarrow> jsval \<Rightarrow> error + string" where
  "getOrder schemaCache keyspace req =
     (let ord = js_get req ''order'' in
      if truthy ord then
        (let schema = schemaCache keyspace in
         if truthy schema \<and> nullish (js_get schema ''index'') then Inl TypeError
         else
           (let rangeColumn =
                  (if truthy schema then
                     (case js_get (js_get schema ''index'') ''range'' of
                        JArr xs \<Rightarrow> (case xs of [] \<Rightarrow> JUndef | x # r \<Rightarrow> x)
                      | r \<Rightarrow> r)
                   else JStr ''_tid'')
            in
            (case ord of
               JStr d \<Rightarrow>
                 (let dir = toLowerCase d in
                  if truthy rangeColumn \<and> inOrderTable dir then
                    (if isStr rangeColumn
                     then Inr ('' order by '' @ cassID (key_of rangeColumn) @ '' '' @ dir)
                     else Inl Unmodelled)
                  else Inr [])
             | JUuid nd cs ms ns \<Rightarrow> Inl Unmodelled
             | JText t \<Rightarrow> Inl Unmodelled
             | _ \<Rightarrow> Inl TypeError)))
      else Inr [])"

text \<open>
\<^verbatim>\<open>
if (req.limit && req.limit.constructor === Number) {
    cql += ' limit ' + req.limit;
}
\<close>
\<close>

definition getLimit :: "jsval \<Rightarrow> error + string" where
  "getLimit req =
     (case js_get req ''limit'' of
        JNum n \<Rightarrow> if n \<noteq> 0
                  then (if safeInteger n then Inr ('' limit '' @ show_int n) else Inl Unmodelled)
                  else Inr []
      | _ \<Rightarrow> Inr [])"

text \<open>
  \<^verbatim>\<open>DB.prototype._get(keyspace, req, consistency, table)\<close> up to the call of the driver:
  the statement it executes.
\<close>

definition priv_get_call :: "(string \<Rightarrow> jsval) \<Rightarrow> string \<Rightarrow> jsval \<Rightarrow> jsval \<Rightarrow> jsval \<Rightarrow>
    error + driver_call" where
  "priv_get_call schemaCache keyspace req consistency table0 =
     (case getProj schemaCache keyspace req of
        Inl e \<Rightarrow> Inl e
      | Inr proj0 \<Rightarrow>
         (case getTable req table0 of
            Inl e \<Rightarrow> Inl e
          | Inr table \<Rightarrow>
             (let proj = (if truthy (js_get req ''distinct'') then ''distinct '' @ proj0 else proj0);
                  cql = ''select '' @ proj @ '' from '' @ cassID keyspace @ ''.'' @ cassID table
              in
              (case (if truthy (js_get req ''attributes'')
                     then (case buildCondition (js_get req ''attributes'') of
                             Inl e \<Rightarrow> Inl e
                           | Inr condResult \<Rightarrow>
                               Inr (cql @ '' where '' @ query condResult, params condResult))
                     else Inr (cql, [])) of
                 Inl e \<Rightarrow> Inl e
               | Inr (cql1, ps) \<Rightarrow>
                  (case getOrder schemaCache keyspace req of
                     Inl e \<Rightarrow> Inl e
                   | Inr ord \<Rightarrow>
                      (case getLimit req of
                         Inl e \<Rightarrow> Inl e
                       | Inr lim \<Rightarrow>
                           Inr (Execute_p (cql1 @ ord @ lim) ps
                                  (JObj [(''consistency'', consistency), (''prepared'', JBool True)]))))))))"

text \<open>
  The loop of the callback of \<^verbatim>\<open>_get\<close>:
\<^verbatim>\<open>
for (var row in rows) {
    row.columns = undefined;
}
\<close>
  The loop variable \<open>row\<close> is a property name of \<^verbatim>\<open>rows\<close> (the string of an array index),
  not a row, so the assignment is to a property of a primitive string and leaves the rows
  as they are. The file is in strict mode, where ECMAScript 5 makes such an assignment throw
  a \<^verbatim>\<open>TypeError\<close>; engines that do not implement this discard the write. \<open>strictPut\<close>
  tells which of the two the engine does.
\<close>

fun hideColumns :: "bool \<Rightarrow> string list \<Rightarrow> error + unit" where
  "hideColumns strictPut [] = Inr ()"
| "hideColumns strictPut (row # r) = (if strictPut then Inl TypeError else hideColumns strictPut r)"

text \<open>
  The callback of \<^verbatim>\<open>_get\<close> on the driver's result:
\<^verbatim>\<open>
function(result) {
    var rows = result.rows;
    for (var row in rows) { row.columns = undefined; }
    return { count: rows.length, items: rows };
}
\<close>
\<close>

definition priv_get_then :: "bool \<Rightarrow> jsval \<Rightarrow> error + jsval" where
  "priv_get_then strictPut result =
     (if nullish result then Inl TypeError else
      (let rows = js_get result ''rows'' in
       (case for_in rows of
          Inl e \<Rightarrow> Inl e
        | Inr entries \<Rightarrow>
           (case hideColumns strictPut (map fst entries) of
              Inl e \<Rightarrow> Inl e
            | Inr u \<Rightarrow>
               if nullish rows then Inl TypeError
               else Inr (JObj [(''count'', js_get rows ''length''), (''items'', rows)])))))"

text \<open>
  \<^verbatim>\<open>DB.prototype._get\<close>: what its promise resolves to (\<open>Inr\<close>) or is rejected with
  (\<open>Inl\<close>). \<open>client\<close> is the driver: the result of the call it is given.
\<close>

definition priv_get :: "(driver_call \<Rightarrow> error + jsval) \<Rightarrow> bool \<Rightarrow> (string \<Rightarrow> jsval) \<Rightarrow> string \<Rightarrow> jsval \<Rightarrow>
    jsval \<Rightarrow> jsval \<Rightarrow> error + jsval" where
  "priv_get client strictPut schemaCache keyspace req consistency table0 =
     (case priv_get_call schemaCache keyspace req consistency table0 of
        Inl e \<Rightarrow> Inl e
      | Inr call \<Rightarrow>
         (case client call of
            Inl e \<Rightarrow> Inl e
          | Inr result \<Rightarrow> priv_get_then strictPut result))"

text \<open>
  The callback of \<^verbatim>\<open>_getSchema\<close> on the response of \<^verbatim>\<open>_get\<close>: \<^verbatim>\<open>null\<close> when
  there is no row, else the enrichment of the parsed document. The stored value is parsed
  when it is the text of a document (\<^verbatim>\<open>JSON.stringify\<close>).
\<close>

definition priv_getSchema_then :: "jsval \<Rightarrow> jsval \<Rightarrow> error + jsval" where
  "priv_getSchema_then defaultConsistency res =
     (let items = js_get res ''items'' in
      if nullish items then Inl TypeError
      else if truthy (js_get items ''length'') then
        (case js_index items 0 of
           Inl e \<Rightarrow> Inl e
         | Inr row \<Rightarrow>
            if nullish row then Inl TypeError
            else (case js_get row ''value'' of
                    JText doc \<Rightarrow> enrich defaultConsistency (json_roundtrip doc)
                  | _ \<Rightarrow> Inl Unmodelled))
      else Inr JNull)"

text \<open>
\<^verbatim>\<open>
DB.prototype._getSchema = function (keyspace, consistency) {
    var query = { attributes: { key: 'schema' } };
    return this._get(keyspace, {}, consistency, 'meta')
    .then(function(res) { ... });
};
\<close>
  The request passed to \<^verbatim>\<open>_get\<close> is the empty object; the variable \<^verbatim>\<open>query\<close> is not
  used. \<open>priv_getSchema_call\<close> is the statement that is executed, \<open>priv_getSchema\<close> the
  outcome of the promise.
\<close>

definition priv_getSchema_call :: "(string \<Rightarrow> jsval) \<Rightarrow> string \<Rightarrow> jsval \<Rightarrow> error + driver_call" where
  "priv_getSchema_call schemaCache keyspace consistency =
     priv_get_call schemaCache keyspace (JObj []) consistency (JStr ''meta'')"

definition priv_getSchema :: "(driver_call \<Rightarrow> error + jsval) \<Rightarrow> bool \<Rightarrow> (string \<Rightarrow> jsval) \<Rightarrow> jsval \<Rightarrow>
    string \<Rightarrow> jsval \<Rightarrow> error + jsval" where
  "priv_getSchema client strictPut schemaCache defaultConsistency keyspace consistency =
     (case priv_get client strictPut schemaCache keyspace (JObj []) consistency (JStr ''meta'') of
        Inl e \<Rightarrow> Inl e
      | Inr res \<Rightarrow> priv_getSchema_then defaultConsistency res)"

section \<open>DDL planner\<close>

definition squote :: string where
  "squote = [CHR 0x27]"

text \<open>The \<^verbatim>\<open>switch (type)\<close> of \<^verbatim>\<open>_createTable\<close>: the column type of a logical type, and
  \<open>None\<close> for the \<^verbatim>\<open>default\<close> branch.\<close>

definition cqlType :: "jsval \<Rightarrow> string option" where
  "cqlType t =
     (if t = JStr ''blob'' then Some ''blob''
      else if t = JStr ''set<blob>'' then Some ''set<blob>''
      else if t = JStr ''decimal'' then Some ''decimal''
      else if t = JStr ''set<decimal>'' then Some ''set<decimal>''
      else if t = JStr ''double'' then Some ''double''
      else if t = JStr ''set<double>'' then Some ''set<double>''
      else if t = JStr ''boolean'' then Some ''boolean''
      else if t = JStr ''set<boolean>'' then Some ''set<boolean>''
      else if t = JStr ''varint'' then Some ''varint''
      else if t = JStr ''set<varint>'' then Some ''set<varint>''
      else if t = JStr ''string'' then Some ''text''
      else if t = JStr ''set<string>'' then Some ''set<text>''
      else if t = JStr ''timeuuid'' then Some ''timeuuid''
      else if t = JStr ''set<timeuuid>'' then Some ''set<timeuuid>''
      else if t = JStr ''uuid'' then Some ''uuid''
      else if t = JStr ''set<uuid>'' then Some ''set<uuid>''
      else if t = JStr ''timestamp'' then Some ''timestamp''
      else if t = JStr ''set<timestamp>'' then Some ''set<timestamp>''
      else if t = JStr ''json'' then Some ''text''
      else if t = JStr ''set<json>'' then Some ''set<text>''
      else None)"

text \<open>The column definitions: one iteration per attribute of \<^verbatim>\<open>req.attributes\<close>.\<close>

fun columnLoop :: "string list \<Rightarrow> (string \<times> jsval) list \<Rightarrow> error + string" where
  "columnLoop statics [] = Inr []"
| "columnLoop statics ((attr, t) # r) =
     (case cqlType t of
        None \<Rightarrow> Inl (InvalidType t attr)
      | Some ct \<Rightarrow>
         (case columnLoop statics r of
            Inl e \<Rightarrow> Inl e
          | Inr rest \<Rightarrow>
              Inr (cassID attr @ '' '' @ ct @ (if attr \<in> set statics then '' static'' else [])
                   @ '', '' @ rest)))"

text \<open>
\<^verbatim>\<open>
for (var i = 0; i < rangeIndex.length; i++) {
    var attName = rangeIndex[i];
    var dir = orders[i];
    if (dir) {
        if (dir.constructor !== String || ! dir.toLowerCase() in {'asc':1, 'desc':1}) {
            throw new Error('Invalid order direction in schema:\n' + req);
        } else {
            orderBits.push(cassID(attName) + ' ' + dir.toLowerCase());
        }
    }
}
\<close>
  For a string \<^verbatim>\<open>dir\<close> the second disjunct is \<^verbatim>\<open>(!dir.toLowerCase()) in {...}\<close>, the
  test whether \<^verbatim>\<open>false\<close> names a property of the table: it is false.
\<close>

fun orderLoop :: "jsval list \<Rightarrow> jsval list \<Rightarrow> error + string list" where
  "orderLoop [] orders = Inr []"
| "orderLoop (attName # r) orders =
     (let dir = (case orders of [] \<Rightarrow> JUndef | d # ds \<Rightarrow> d) in
      if truthy dir then
        (case dir of
           JStr d \<Rightarrow>
             (if \<not> isStr attName then Inl Unmodelled
              else (case orderLoop r (tl orders) of
                      Inl e \<Rightarrow> Inl e
                    | Inr bits \<Rightarrow> Inr ((cassID (key_of attName) @ '' '' @ toLowerCase d) # bits)))
         | JUuid nd cs ms ns \<Rightarrow> Inl Unmodelled
         | JText t \<Rightarrow> Inl Unmodelled
         | _ \<Rightarrow> Inl InvalidOrderDirection)
      else orderLoop r (tl orders))"

text \<open>The names of the static columns of \<^verbatim>\<open>_createTable\<close>.\<close>

definition staticNames :: "jsval \<Rightarrow> jsval list" where
  "staticNames req =
     (let index = js_get req ''index'' in
      if truthy index \<and> truthy (js_get index ''static'')
      then (case js_get index ''static'' of JArr xs \<Rightarrow> xs | x \<Rightarrow> [x])
      else [])"

text \<open>
  The statement text that \<^verbatim>\<open>_createTable(keyspace, req, tableName, consistency)\<close> builds
  before it turns to the secondary indexes.
\<close>

definition createTableCql :: "string \<Rightarrow> jsval \<Rightarrow> string \<Rightarrow> error + string" where
  "createTableCql keyspace req tableName =
     (if \<not> truthy (js_get req ''attributes'') then Inl NoAttributeDefinitions
      else if \<not> list_all keyable (staticNames req) then Inl Unmodelled
      else
       (case for_in (js_get req ''attributes'') of
          Inl e \<Rightarrow> Inl e
        | Inr attrs \<Rightarrow>
           (case columnLoop (map key_of (staticNames req)) attrs of
              Inl e \<Rightarrow> Inl e
            | Inr columns \<Rightarrow>
               (case validateSchema req of
                  Inl e \<Rightarrow> Inl e
                | Inr rangeIndex \<Rightarrow>
                   (let index = js_get req ''index'' in
                    if \<not> list_all isStr (js_get index ''hash'' # rangeIndex) then Inl Unmodelled
                    else
                     (let cql = ''create table '' @ cassID keyspace @ ''.'' @ cassID tableName @ '' (''
                                @ columns @ ''primary key (''
                                @ join '','' (map (\<lambda>x. cassID (key_of x)) (js_get index ''hash'' # rangeIndex))
                                @ ''))''
                                @ '' WITH compaction = { '' @ squote @ ''class'' @ squote @ '' : ''
                                @ squote @ ''LeveledCompactionStrategy'' @ squote @ '' }''
                      in
                      if truthy (js_get index ''order'') \<and> rangeIndex \<noteq> [] then
                        (case orderLoop rangeIndex
                                (case js_get index ''order'' of JArr os \<Rightarrow> os | x \<Rightarrow> [x]) of
                           Inl e \<Rightarrow> Inl e
                         | Inr orderBits \<Rightarrow>
                             Inr (cql @ '' and clustering order by ( '' @ join '','' orderBits @ '' )''))
                      else Inr cql))))))"

text \<open>
  The secondary indexes of \<^verbatim>\<open>_createTable\<close>:
\<^verbatim>\<open>
for (var indexName in req.secondaryIndexes) {
    var indexSchema = generateIndexSchema(req, indexName);
    tasks.push(this._createTable(keyspace, indexSchema, 'i_' + indexName));
}
\<close>
  The companion schema has no secondary indexes of its own, so the inner call executes its
  statement directly; it is called without a consistency. The result is the parent schema
  after the writes of \<^verbatim>\<open>generateIndexSchema\<close> and the calls of the driver.
\<close>

fun companionTables :: "jsval \<Rightarrow> string \<Rightarrow> jsval \<Rightarrow> string list \<Rightarrow> error + (jsval \<times> driver_call list)" where
  "companionTables defaultConsistency keyspace req [] = Inr (req, [])"
| "companionTables defaultConsistency keyspace req (indexName # r) =
     (case generateIndexSchema defaultConsistency req indexName of
        Inl e \<Rightarrow> Inl e
      | Inr (req', indexSchema) \<Rightarrow>
         (case createTableCql keyspace indexSchema (''i_'' @ indexName) of
            Inl e \<Rightarrow> Inl e
          | Inr cql \<Rightarrow>
             (case companionTables defaultConsistency keyspace req' r of
                Inl e \<Rightarrow> Inl e
              | Inr (req'', calls) \<Rightarrow>
                  Inr (req'', Execute_p cql [] (JObj [(''consistency'', JUndef)]) # calls))))"

text \<open>\<^verbatim>\<open>DB.prototype._createTable(keyspace, req, tableName, consistency)\<close>: the schema
  after the call and the calls of the driver, in order.\<close>

definition priv_createTable :: "jsval \<Rightarrow> string \<Rightarrow> jsval \<Rightarrow> string \<Rightarrow> jsval \<Rightarrow>
    error + (jsval \<times> driver_call list)" where
  "priv_createTable defaultConsistency keyspace req tableName consistency =
     (case createTableCql keyspace req tableName of
        Inl e \<Rightarrow> Inl e
      | Inr cql \<Rightarrow>
         (let secondaryIndexes = js_get req ''secondaryIndexes'';
              call = Execute_p cql [] (JObj [(''consistency'', consistency)])
          in
          if truthy secondaryIndexes then
            (case for_in secondaryIndexes of
               Inl e \<Rightarrow> Inl e
             | Inr sis \<Rightarrow>
                (case companionTables defaultConsistency keyspace req (map fst sis) of
                   Inl e \<Rightarrow> Inl e
                 | Inr (req', calls) \<Rightarrow> Inr (req', calls @ [call])))
          else Inr (req, [call])))"

text \<open>
\<^verbatim>\<open>
if (!req.options) {
    req.options = "{ 'class': 'SimpleStrategy', 'replication_factor': 3 }";
} else {
    req.options = "{ 'class': '"+ req.options.storageClass + "', 'replication_factor': "
                  + req.options.durabilityLevel + "}";
}
\<close>
\<close>

definition replicationOptions :: "jsval \<Rightarrow> error + string" where
  "replicationOptions req =
     (let opts = js_get req ''options'' in
      if \<not> truthy opts then
        Inr (''{ '' @ squote @ ''class'' @ squote @ '': '' @ squote @ ''SimpleStrategy'' @ squote
             @ '', '' @ squote @ ''replication_factor'' @ squote @ '': 3 }'')
      else if symbolic opts \<or> \<not> keyable (js_get opts ''storageClass'')
              \<or> \<not> keyable (js_get opts ''durabilityLevel'') then Inl Unmodelled
      else
        Inr (''{ '' @ squote @ ''class'' @ squote @ '': '' @ squote
             @ key_of (js_get opts ''storageClass'') @ squote
             @ '', '' @ squote @ ''replication_factor'' @ squote @ '': ''
             @ key_of (js_get opts ''durabilityLevel'') @ ''}''))"

text \<open>
  \<^verbatim>\<open>DB.prototype.createTable(reverseDomain, req)\<close>, for the keyspace that
  \<^verbatim>\<open>keyspaceName(reverseDomain, req.table)\<close> names, when the driver resolves every call.
  \<open>consistencies\<close> is the driver's table \<^verbatim>\<open>cass.types.consistencies\<close> (a requested
  consistency that names an inherited property of the table is not followed). The result is the
  request object after the call and the calls of the driver in order: the keyspace, the
  tables, and last the write of \<^verbatim>\<open>{key: 'schema', value: JSON.stringify(req)}\<close> to the
  \<^verbatim>\<open>meta\<close> table. \<^verbatim>\<open>JSON.stringify(req)\<close> is evaluated in the last callback of the
  chain, after \<^verbatim>\<open>_createTable\<close> has run on \<^verbatim>\<open>req\<close>.
\<close>

definition createTable :: "(string \<Rightarrow> jsval) \<Rightarrow> (string \<Rightarrow> jsval) \<Rightarrow> (nat \<Rightarrow> int) \<Rightarrow> string \<Rightarrow> jsval \<Rightarrow>
    error + (jsval \<times> driver_call list)" where
  "createTable consistencies schemaCache clock keyspace req =
     (if \<not> truthy (js_get req ''table'') then Inl TableNameRequired
      else
       (let defaultConsistency = consistencies ''one'';
            c = js_get req ''consistency'';
            consistency = (if truthy c \<and> (c = JStr ''all'' \<or> c = JStr ''localQuorum'')
                           then consistencies (key_of c) else defaultConsistency)
        in
        if truthy c \<and> (key_of c \<in> set objectPrototypeNames \<or> \<not> keyable c) then Inl Unmodelled else
        (case replicationOptions req of
           Inl e \<Rightarrow> Inl e
         | Inr options \<Rightarrow>
            (let req1 = JObj (obj_set (obj_entries req) ''options'' (JStr options));
                 createKeyspace =
                   Execute_p (''create keyspace '' @ cassID keyspace @ '' WITH REPLICATION = '' @ options) []
                     (JObj [(''consistency'',
                             if truthy consistency then consistency else defaultConsistency)])
             in
             (case priv_createTable defaultConsistency keyspace req1 ''data'' consistency of
                Inl e \<Rightarrow> Inl e
              | Inr (req2, dataCalls) \<Rightarrow>
                 (case priv_createTable defaultConsistency keyspace infoSchema ''meta'' consistency of
                    Inl e \<Rightarrow> Inl e
                  | Inr (info, metaCalls) \<Rightarrow>
                     (case priv_put schemaCache clock keyspace
                             (JObj [(''attributes'',
                                     JObj [(''key'', JStr ''schema''), (''value'', JText req2)])])
                             consistency (JStr ''meta'') of
                        Inl e \<Rightarrow> Inl e
                      | Inr putCall \<Rightarrow>
                          Inr (req2, createKeyspace # dataCalls @ metaCalls @ [putCall]))))))))"

text \<open>
  The \<^verbatim>\<open>meta\<close> table after \<^verbatim>\<open>createTable\<close>, as a read of it returns it: the one row
  written by the last call, \<^verbatim>\<open>update ... set "value" = ? where "key" = ?\<close>, whose
  parameters are the value and the key.
\<close>

definition metaRows :: "driver_call \<Rightarrow> jsval" where
  "metaRows call =
     (case call of
        Execute_p cql ps options \<Rightarrow>
          (case ps of
             [v, k] \<Rightarrow> JArr [JObj [(''key'', k), (''value'', v)]]
           | _ \<Rightarrow> JArr [])
      | Batch_p batch options \<Rightarrow> JArr [])"

section \<open>Observations and sample inputs\<close>

text \<open>The names in the primary \<^verbatim>\<open>_indexAttributes\<close> of an enriched schema, the companion
  schema cached for an index, and the names in its \<^verbatim>\<open>_indexAttributes\<close>.\<close>

definition primaryIndexAttributes :: "jsval \<Rightarrow> string list" where
  "primaryIndexAttributes schema =
     map fst (obj_entries (js_get (js_get schema ''_restbase'') ''_indexAttributes''))"

definition companion :: "jsval \<Rightarrow> string \<Rightarrow> jsval" where
  "companion schema indexName =
     js_get (js_get (js_get schema ''_restbase'') ''indexSchema'') indexName"

definition companionIndexAttributes :: "jsval \<Rightarrow> string \<Rightarrow> string list" where
  "companionIndexAttributes schema indexName =
     map fst (obj_entries (js_get (companion schema indexName) ''_indexAttributes''))"

text \<open>The columns in the closed clustering list of a companion table, in the words of the
  specification. A column of the primary key is already a column of the companion when the
  companion's initial attributes (the two bookkeeping columns and the index hash key) give it
  a type; \<open>columnType\<close> is the type the companion gives a clustering column. The closed list
  is the descriptor's own range, then the columns of the primary key (hash key first) that
  are neither columns of the companion already nor in the list, each once, then \<open>_tid\<close>
  unless a column of the list has the type \<^verbatim>\<open>timeuuid\<close>.\<close>

fun firstOccurrences :: "'a list \<Rightarrow> 'a list" where
  "firstOccurrences [] = []"
| "firstOccurrences (x # xs) = x # firstOccurrences (filter (\<lambda>y. y \<noteq> x) xs)"

definition baseColumn :: "jsval \<Rightarrow> jsval \<Rightarrow> jsval \<Rightarrow> bool" where
  "baseColumn reqAttributes hash att =
     truthy (js_get (JObj (companionBase reqAttributes hash)) (key_of att))"

definition columnType :: "jsval \<Rightarrow> jsval \<Rightarrow> jsval \<Rightarrow> jsval" where
  "columnType reqAttributes hash att =
     (if baseColumn reqAttributes hash att
      then js_get (JObj (companionBase reqAttributes hash)) (key_of att)
      else js_get reqAttributes (key_of att))"

definition primaryKey :: "jsval \<Rightarrow> jsval list" where
  "primaryKey req =
     js_get (js_get req ''index'') ''hash'' # normRange (js_get (js_get req ''index'') ''range'')"

definition keyedRange :: "jsval \<Rightarrow> string \<Rightarrow> jsval list" where
  "keyedRange req indexName =
     normRange (js_get (descriptor req indexName) ''range'')
     @ firstOccurrences
         (filter (\<lambda>att. \<not> baseColumn (js_get req ''attributes'')
                                (js_get (descriptor req indexName) ''hash'') att
                       \<and> att \<notin> set (normRange (js_get (descriptor req indexName) ''range'')))
            (primaryKey req))"

definition closedRange :: "jsval \<Rightarrow> string \<Rightarrow> jsval list" where
  "closedRange req indexName =
     keyedRange req indexName
     @ (if list_ex (\<lambda>att. columnType (js_get req ''attributes'')
                              (js_get (descriptor req indexName) ''hash'') att = JStr ''timeuuid'')
             (keyedRange req indexName)
        then [] else [JStr ''_tid''])"

text \<open>The bind markers of a statement text: the \<^verbatim>\<open>?\<close> characters outside double-quoted
  identifiers. Inside a quoted identifier a double quote is written twice, so every double
  quote character of the text switches between inside and outside. \<open>markers quoted s\<close>
  counts the bind markers of \<open>s\<close> when it is read from inside (\<open>quoted\<close>) or outside a
  quoted identifier.\<close>

fun markers :: "bool \<Rightarrow> string \<Rightarrow> nat" where
  "markers quoted [] = 0"
| "markers quoted (c # s) =
     (if c = CHR 0x22 then markers (\<not> quoted) s
      else (if c = CHR ''?'' \<and> \<not> quoted then 1 else 0) + markers quoted s)"

definition placeholders :: "string \<Rightarrow> nat" where
  "placeholders q = markers False q"

text \<open>The properties that \<^verbatim>\<open>for (predKey in pred)\<close> visits.\<close>

definition entriesOf :: "jsval \<Rightarrow> (string \<times> jsval) list" where
  "entriesOf pred = (case for_in pred of Inr entries \<Rightarrow> entries | Inl e \<Rightarrow> [])"

text \<open>Two predicate values of the same shape: two strings, two objects with the same
  property names (for a predicate, the same operator), or two values that are neither.\<close>

definition sameShape :: "jsval \<Rightarrow> jsval \<Rightarrow> bool" where
  "sameShape v w =
     (if is_String v then is_String w
      else (case v of
              JObj kvs \<Rightarrow> (case w of JObj kvs' \<Rightarrow> map fst kvs = map fst kvs' | _ \<Rightarrow> False)
            | _ \<Rightarrow> \<not> is_String w \<and> (case w of JObj kvs' \<Rightarrow> False | _ \<Rightarrow> True)))"

text \<open>The names of the key columns that \<^verbatim>\<open>buildPutQuery\<close> uses for a table, in the
  order of enumeration, and the key map (\<^verbatim>\<open>indexKVMap\<close>) that its first loop builds over
  them when no key attribute is missing.\<close>

definition putKeys :: "string \<Rightarrow> jsval \<Rightarrow> string list" where
  "putKeys table schema = map fst (obj_entries (putIndexAttributes table schema))"

definition keyMap :: "int \<Rightarrow> jsval \<Rightarrow> string list \<Rightarrow> (string \<times> jsval) list" where
  "keyMap now reqAttributes keys =
     map (\<lambda>k. (k, if k = ''_tid'' then tidFromDate now else js_get reqAttributes k)) keys"

text \<open>The attributes a request supplies; those of them that the second loop of
  \<^verbatim>\<open>buildPutQuery\<close> considers (defined, and declared in \<^verbatim>\<open>schema.attributes\<close>); and
  those of the latter that are not key columns.\<close>

definition supplied :: "jsval \<Rightarrow> (string \<times> jsval) list" where
  "supplied req = (case for_in (js_get req ''attributes'') of Inr attrs \<Rightarrow> attrs | Inl e \<Rightarrow> [])"

definition declared :: "jsval \<Rightarrow> string \<times> jsval \<Rightarrow> bool" where
  "declared schemaAttributes kv = (snd kv \<noteq> JUndef \<and> truthy (js_get schemaAttributes (fst kv)))"

definition nonKeyAttrs :: "jsval \<Rightarrow> jsval \<Rightarrow> (string \<times> jsval) list \<Rightarrow> (string \<times> jsval) list" where
  "nonKeyAttrs schemaAttributes ia attrs =
     filter (\<lambda>kv. declared schemaAttributes kv \<and> \<not> truthy (js_get ia (fst kv))) attrs"

text \<open>The value of \<^verbatim>\<open>req.if\<close> after its normalization.\<close>

definition normalizedIf :: "jsval \<Rightarrow> jsval" where
  "normalizedIf v = (case v of JStr s \<Rightarrow> if s \<noteq> [] then JStr (normalizeIf s) else v | _ \<Rightarrow> v)"

text \<open>The request \<open>req\<close> with the attribute \<open>_tid\<close> supplied as \<open>v\<close>.\<close>

definition withTid :: "jsval \<Rightarrow> jsval \<Rightarrow> jsval" where
  "withTid v req =
     JObj (obj_set (obj_entries req) ''attributes''
       (JObj (obj_set (obj_entries (js_get req ''attributes'')) ''_tid'' v)))"

text \<open>The statement of a result, without the request.\<close>

definition statementOf :: "error + (jsval \<times> stmt) \<Rightarrow> error + stmt" where
  "statementOf r = (case r of Inl e \<Rightarrow> Inl e | Inr (req', q) \<Rightarrow> Inr q)"

text \<open>The attributes of a put that get a placeholder in an \<^verbatim>\<open>INSERT\<close>: the supplied
  attributes that are defined and declared in the schema.\<close>

definition putDeclared :: "jsval \<Rightarrow> jsval \<Rightarrow> (string \<times> jsval) list" where
  "putDeclared req schema = filter (declared (js_get schema ''attributes'')) (supplied req)"

text \<open>The non-key attributes of a put: the supplied attributes that are defined, declared in
  the schema, and not among the table's key columns.\<close>

definition putNonKeys :: "jsval \<Rightarrow> string \<Rightarrow> jsval \<Rightarrow> (string \<times> jsval) list" where
  "putNonKeys req table schema =
     nonKeyAttrs (js_get schema ''attributes'') (putIndexAttributes table schema) (supplied req)"

text \<open>A statement that inserts into or updates the table \<open>tbl\<close> of the keyspace.\<close>

definition targets :: "stmt \<Rightarrow> string \<Rightarrow> string \<Rightarrow> bool" where
  "targets q keyspace tbl =
     (let ins = ''insert into '' @ cassID keyspace @ ''.'' @ cassID tbl @ '' '';
          upd = ''update '' @ cassID keyspace @ ''.'' @ cassID tbl @ '' ''
      in take (length ins) (query q) = ins \<or> take (length upd) (query q) = upd)"

text \<open>A table with the primary key \<open>key\<close> and one secondary index \<open>by_rev\<close>, as
  \<^verbatim>\<open>_getSchema\<close> caches it, and a table whose primary key has the range column \<open>_tid\<close>.\<close>

definition revSchema :: jsval where
  "revSchema = JObj
     [(''table'', JStr ''revs''),
      (''attributes'', JObj [(''key'', JStr ''string''), (''rev'', JStr ''string''),
                             (''body'', JStr ''string'')]),
      (''index'', JObj [(''hash'', JStr ''key'')]),
      (''secondaryIndexes'', JObj [(''by_rev'', JObj [(''hash'', JStr ''rev'')])])]"

definition revCache :: "string \<Rightarrow> jsval" where
  "revCache keyspace =
     (if keyspace = ''ks''
      then (case enrich (JNum 1) revSchema of Inr schema \<Rightarrow> schema | Inl e \<Rightarrow> JUndef)
      else JUndef)"

definition tidSchema :: jsval where
  "tidSchema = JObj
     [(''attributes'', JObj [(''key'', JStr ''string''), (''_tid'', JStr ''timeuuid''),
                             (''body'', JStr ''string'')]),
      (''index'', JObj [(''hash'', JStr ''key''), (''range'', JStr ''_tid'')]),
      (''_restbase'', JObj [(''indexSchema'', JObj []),
                            (''_indexAttributes'', JObj [(''key'', JBool True), (''_tid'', JBool True)])])]"

text \<open>A table with the primary key \<open>(key, rev)\<close> and a secondary index on \<open>title\<close>.\<close>

definition pagesSchema :: jsval where
  "pagesSchema = JObj
     [(''table'', JStr ''pages''),
      (''attributes'', JObj [(''key'', JStr ''string''), (''rev'', JStr ''varint''),
                             (''title'', JStr ''string'')]),
      (''index'', JObj [(''hash'', JStr ''key''), (''range'', JStr ''rev'')]),
      (''secondaryIndexes'', JObj [(''by_title'', JObj [(''hash'', JStr ''title'')])])]"

text \<open>A row as the driver returns it, with the driver's \<^verbatim>\<open>columns\<close> property.\<close>

definition driverRow :: jsval where
  "driverRow = JObj [(''key'', JStr ''schema''), (''value'', JStr ''{}''),
                     (''columns'', JArr [JStr ''key'', JStr ''value''])]"

section \<open>Objects\<close>

lemma map_of_obj_set: "map_of (obj_set kvs k v) k' = (if k' = k then Some v else map_of kvs k')"
  by (induction kvs) auto

lemma js_get_obj_set: "js_get (JObj (obj_set kvs k v)) k' = (if k' = k then v else js_get (JObj kvs) k')"
  by (simp add: map_of_obj_set)

section \<open>Companion synthesis\<close>

text \<open>
  Claim C1: for every schema and every secondary index of it, the \<^verbatim>\<open>_indexAttributes\<close>
  of the companion schema are a superset of the primary \<^verbatim>\<open>_indexAttributes\<close> that
  \<^verbatim>\<open>_getSchema\<close> computes, and the companion has a \<^verbatim>\<open>timeuuid\<close> column.

  The code does not meet the first part. On the schema with the primary key \<open>(key, rev)\<close>
  and an index on \<open>title\<close>, the primary \<^verbatim>\<open>_indexAttributes\<close> are \<open>key, rev\<close> and the
  companion's are \<open>title, rev, _tid\<close>: the primary hash key is appended to the companion's
  range, but, unlike the primary range keys in the loop that follows, it is not entered
  into \<^verbatim>\<open>_indexAttributes\<close>.
\<close>

theorem companion_misses_primary_hash:
  "(case enrich defaultConsistency pagesSchema of
      Inl e \<Rightarrow> False
    | Inr schema \<Rightarrow>
        primaryIndexAttributes schema = [''key'', ''rev''] \<and>
        companionIndexAttributes schema ''by_title'' = [''title'', ''rev'', ''_tid''] \<and>
        js_get (descriptor schema ''by_title'') ''range''
          = JArr [JStr ''key'', JStr ''rev'', JStr ''_tid''] \<and>
        \<not> set (primaryIndexAttributes schema) \<subseteq> set (companionIndexAttributes schema ''by_title''))"
  by code_simp

text \<open>The other part of the claim holds: whenever \<^verbatim>\<open>generateIndexSchema\<close> returns, some
  column of the companion has the type \<^verbatim>\<open>timeuuid\<close>.\<close>

lemma copyProj_keeps:
  "js_get (JObj attributes) a = v \<Longrightarrow> truthy v \<Longrightarrow>
   js_get (JObj (copyProj ra ps attributes)) a = v"
proof (induction ps arbitrary: attributes)
  case Nil
  then show ?case by simp
next
  case (Cons p ps)
  let ?attributes' = "(if \<not> truthy (js_get (JObj attributes) (key_of p))
        then obj_set attributes (key_of p) (js_get ra (key_of p)) else attributes)"
  have "js_get (JObj ?attributes') a = v"
    using Cons.prems by (auto simp: js_get_obj_set simp del: js_get.simps)
  from Cons.IH [OF this Cons.prems(2)] show ?case by simp
qed

lemma pullTypes_keeps:
  "js_get (JObj attributes) a = v \<Longrightarrow> truthy v \<Longrightarrow>
   js_get (JObj (fst (pullTypes ra r (attributes, h)))) a = v"
proof (induction r arbitrary: attributes h)
  case Nil
  then show ?case by simp
next
  case (Cons att r)
  let ?attributes' = "(if \<not> truthy (js_get (JObj attributes) (key_of att))
        then obj_set attributes (key_of att) (js_get ra (key_of att)) else attributes)"
  have "js_get (JObj ?attributes') a = v"
    using Cons.prems by (auto simp: js_get_obj_set simp del: js_get.simps)
  from Cons.IH [OF this Cons.prems(2)] show ?case by (simp add: Let_def del: js_get.simps)
qed

lemma pullTypes_hasTid:
  "snd (pullTypes ra r (attributes, h)) \<Longrightarrow>
   h \<or> (\<exists>a. js_get (JObj (fst (pullTypes ra r (attributes, h)))) a = JStr ''timeuuid'')"
proof (induction r arbitrary: attributes h)
  case Nil
  then show ?case by simp
next
  case (Cons att r)
  let ?attributes' = "(if \<not> truthy (js_get (JObj attributes) (key_of att))
        then obj_set attributes (key_of att) (js_get ra (key_of att)) else attributes)"
  let ?h' = "h \<or> js_get (JObj ?attributes') (key_of att) = JStr ''timeuuid''"
  have step: "pullTypes ra (att # r) (attributes, h) = pullTypes ra r (?attributes', ?h')"
    by (simp add: Let_def del: js_get.simps)
  from Cons.prems step have "snd (pullTypes ra r (?attributes', ?h'))" by simp
  from Cons.IH [OF this] have
    "?h' \<or> (\<exists>a. js_get (JObj (fst (pullTypes ra r (?attributes', ?h')))) a = JStr ''timeuuid'')" .
  moreover have "\<exists>a. js_get (JObj (fst (pullTypes ra r (?attributes', ?h')))) a = JStr ''timeuuid''"
    if "js_get (JObj ?attributes') (key_of att) = JStr ''timeuuid''"
    using pullTypes_keeps [OF that, of ra r ?h'] by auto
  ultimately show ?case unfolding step by blast
qed

lemma companionParts_timeuuid:
  "\<exists>a. js_get (JObj (fst (companionParts ra hash phash range0 ri proj))) a = JStr ''timeuuid''"
proof -
  let ?attributes1 = "companionBase ra hash"
  let ?ia1 = "markRange range0 [(key_of hash, JBool True)]"
  let ?range1 = "addPrimaryHash ?attributes1 phash range0"
  let ?p2 = "addPrimaryRange ?attributes1 ri (?range1, ?ia1)"
  let ?p3 = "pullTypes ra (fst ?p2) (?attributes1, False)"
  let ?attributes3 = "(if \<not> snd ?p3 then obj_set (fst ?p3) ''_tid'' (JStr ''timeuuid'') else fst ?p3)"
  have eq: "fst (companionParts ra hash phash range0 ri proj)
          = (if truthy proj \<and> isArray proj then copyProj ra (projList proj) ?attributes3 else ?attributes3)"
    by (simp add: companionParts_def Let_def case_prod_beta del: obj_set.simps)
  have "\<exists>a. js_get (JObj ?attributes3) a = JStr ''timeuuid''"
  proof (cases "snd ?p3")
    case True
    from pullTypes_hasTid [OF True] True show ?thesis by auto
  next
    case False
    then have "js_get (JObj ?attributes3) ''_tid'' = JStr ''timeuuid''"
      by (simp add: js_get_obj_set del: js_get.simps)
    then show ?thesis by blast
  qed
  then obtain a where a: "js_get (JObj ?attributes3) a = JStr ''timeuuid''" by blast
  have "js_get (JObj (copyProj ra (projList proj) ?attributes3)) a = JStr ''timeuuid''"
    using copyProj_keeps [OF a] by simp
  with a eq show ?thesis by (auto simp del: js_get.simps)
qed

lemma companion_has_timeuuid:
  assumes "generateIndexSchema defaultConsistency req indexName = Inr (req', indexSchema)"
  shows "\<exists>a. js_get (js_get indexSchema ''attributes'') a = JStr ''timeuuid''"
proof -
  from assms obtain attributes where
    "js_get indexSchema ''attributes'' = JObj attributes"
    "attributes = fst (companionParts (js_get req ''attributes'')
                   (js_get (descriptor req indexName) ''hash'')
                   (js_get (js_get req ''index'') ''hash'')
                   (normRange (js_get (descriptor req indexName) ''range''))
                   (normRange (js_get (js_get req ''index'') ''range''))
                   (js_get (descriptor req indexName) ''proj''))"
    by (auto simp: generateIndexSchema_def validateSchema_def Let_def split: if_splits prod.splits)
  with companionParts_timeuuid show ?thesis by simp
qed

section \<open>Reads\<close>

text \<open>
  Claim C2: for a read with a non-empty result, \<^verbatim>\<open>_get\<close> resolves to \<^verbatim>\<open>{count, items}\<close>
  with the number of rows and the rows, and the driver's \<^verbatim>\<open>columns\<close> property has been
  removed from every returned row.

  The code does not remove the property: the loop assigns to a property of the index
  string. Where the engine discards the write the row is returned with its
  \<^verbatim>\<open>columns\<close>; where it throws, the promise is rejected.
\<close>

theorem get_keeps_columns:
  "priv_get_then False (JObj [(''rows'', JArr [driverRow])])
     = Inr (JObj [(''count'', JNum 1), (''items'', JArr [driverRow])])
   \<and> js_get driverRow ''columns'' = JArr [JStr ''key'', JStr ''value'']
   \<and> priv_get_then True (JObj [(''rows'', JArr [driverRow])]) = Inl TypeError"
  by code_simp

text \<open>
  Claim C3: \<^verbatim>\<open>_getSchema\<close> reads the \<^verbatim>\<open>meta\<close> table with a predicate on
  \<^verbatim>\<open>key = "schema"\<close>, binding \<^verbatim>\<open>'schema'\<close> as a parameter, and resolves to \<^verbatim>\<open>null\<close>
  when the read returns no rows.

  The code does not restrict the read: for every keyspace the statement is
  \<^verbatim>\<open>select * from "<keyspace>"."meta"\<close> without a \<^verbatim>\<open>where\<close> clause and without
  parameters.
\<close>

theorem getSchema_reads_whole_meta:
  "priv_getSchema_call schemaCache keyspace consistency
     = Inr (Execute_p (''select * from '' @ cassID keyspace @ ''.'' @ dquote @ ''meta'' @ dquote) []
              (JObj [(''consistency'', consistency), (''prepared'', JBool True)]))"
  by (simp add: priv_getSchema_call_def priv_get_call_def getProj_def getTable_def getOrder_def
      getLimit_def cassID_def is_word_char_def)

text \<open>The other part of the claim holds: when the read returns no rows, \<^verbatim>\<open>_getSchema\<close>
  resolves to \<^verbatim>\<open>null\<close>.\<close>

lemma getSchema_no_rows:
  assumes "\<And>call. client call = Inr (JObj [(''rows'', JArr [])])"
  shows "priv_getSchema client strictPut schemaCache defaultConsistency keyspace consistency = Inr JNull"
  using assms
  by (simp add: priv_getSchema_def priv_get_def priv_get_call_def getProj_def getTable_def
      getOrder_def getLimit_def priv_get_then_def priv_getSchema_then_def indexed_def)

section \<open>Predicates\<close>

text \<open>
  Claim C6: for every attribute of a predicate map whose value is a scalar (string,
  number or boolean), \<^verbatim>\<open>buildCondition\<close> emits \<^verbatim>\<open>"<attr>" = ?\<close> and appends the scalar
  to the parameters.

  The code does this for strings only. A number or a boolean takes neither branch: the
  fragment is the quoted name alone and nothing is bound.
\<close>

theorem buildCondition_number_unbound:
  "buildCondition (JObj [(''rev'', JNum 5)]) = Inr \<lparr>query = dquote @ ''rev'' @ dquote, params = []\<rparr>
   \<and> buildCondition (JObj [(''key'', JStr ''foo''), (''latest'', JBool True)])
       = Inr \<lparr>query = dquote @ ''key'' @ dquote @ '' = ? AND '' @ dquote @ ''latest'' @ dquote,
              params = [JStr ''foo'']\<rparr>"
  by code_simp

text \<open>A number or a boolean binds nothing under any name; the string case of the claim
  holds, and so does its example.\<close>

lemma condEntry_number: "condEntry pred k (JNum n) = Inr (cassID k, [])"
  by (simp add: condEntry_def)

lemma condEntry_boolean: "condEntry pred k (JBool b) = Inr (cassID k, [])"
  by (simp add: condEntry_def)

lemma condEntry_string:
  "is_String v \<Longrightarrow> condEntry pred k v = Inr (cassID k @ '' = ?'', [v])"
  by (cases v) (simp_all add: condEntry_def)

lemma predicate_translation_scenario:
  "buildCondition (JObj [(''key'', JStr ''foo''), (''ts'', JObj [(''between'', JArr [JNum 1, JNum 2])])])
     = Inr \<lparr>query = dquote @ ''key'' @ dquote @ '' = ? AND '' @ dquote @ ''ts'' @ dquote
                     @ '' >= ? AND '' @ dquote @ ''ts'' @ dquote @ '' <= ?'',
            params = [JStr ''foo'', JNum 1, JNum 2]\<rparr>"
  by code_simp

section \<open>Persisting and reloading a schema\<close>

text \<open>
  Claim C9: persisting a schema with \<^verbatim>\<open>createTable\<close> and reloading it with
  \<^verbatim>\<open>_getSchema\<close> gives the enrichment of the schema, with the same companion schemas and
  no further change to the index descriptors.

  The code does not: \<^verbatim>\<open>_createTable\<close> runs \<^verbatim>\<open>generateIndexSchema\<close> on the request
  before it is serialized, so the stored document holds the closed descriptors, and the
  reload closes them once more. For the schema with the primary key \<open>(key, rev)\<close> and an
  index on \<open>title\<close> the reloaded descriptor has \<open>_tid\<close> twice in its range, and the
  reloaded companion has \<open>key\<close> among its \<^verbatim>\<open>_indexAttributes\<close>, which the enrichment of
  the schema has not. (On an engine that throws in the loop of \<^verbatim>\<open>_get\<close>, the reload is
  rejected.)
\<close>

theorem reload_differs_from_enrichment:
  "(case createTable consistencies schemaCache clock ''ks'' pagesSchema of
      Inl e \<Rightarrow> False
    | Inr (req', calls) \<Rightarrow>
       (case priv_getSchema (\<lambda>call. Inr (JObj [(''rows'', metaRows (last calls))])) False
               schemaCache (consistencies ''one'') ''ks'' (consistencies ''one'') of
          Inl e \<Rightarrow> False
        | Inr reloaded \<Rightarrow>
           (case enrich (consistencies ''one'') pagesSchema of
              Inl e \<Rightarrow> False
            | Inr enriched \<Rightarrow>
                js_get (descriptor enriched ''by_title'') ''range''
                  = JArr [JStr ''key'', JStr ''rev'', JStr ''_tid''] \<and>
                js_get (descriptor reloaded ''by_title'') ''range''
                  = JArr [JStr ''key'', JStr ''rev'', JStr ''_tid'', JStr ''_tid''] \<and>
                companionIndexAttributes enriched ''by_title'' = [''title'', ''rev'', ''_tid''] \<and>
                companionIndexAttributes reloaded ''by_title''
                  = [''title'', ''key'', ''rev'', ''_tid''] \<and>
                companion reloaded ''by_title'' \<noteq> companion enriched ''by_title''))
     \<and> priv_getSchema (\<lambda>call. Inr (JObj [(''rows'', metaRows (last calls))])) True
           schemaCache (consistencies ''one'') ''ks'' (consistencies ''one'') = Inl TypeError)"
  by code_simp

section \<open>Writes of companion synthesis to the parent schema\<close>

lemma descriptor_setDescriptor: "descriptor (setDescriptor req n d) n = d"
  by (simp add: descriptor_def setDescriptor_def js_get_obj_set del: js_get.simps)

lemma closedDescriptor_static: "js_get (closedDescriptor index r) ''static'' = JStr ''__consistentUpTo''"
  by (simp add: closedDescriptor_def js_get_obj_set del: js_get.simps)

lemma closedDescriptor_range: "js_get (closedDescriptor index r) ''range'' = JArr r"
  by (simp add: closedDescriptor_def js_get_obj_set del: js_get.simps)

lemma generateIndexSchema_Inr:
  assumes "generateIndexSchema dc req indexName = Inr (req', indexSchema)"
  shows "\<exists>rangeCols. req' = setDescriptor req indexName (closedDescriptor (descriptor req indexName) rangeCols)
         \<and> js_get indexSchema ''index'' = closedDescriptor (descriptor req indexName) rangeCols
         \<and> validateSchema req = Inr (normRange (js_get (js_get req ''index'') ''range''))
         \<and> rangeCols = fst (snd (companionParts (js_get req ''attributes'')
                   (js_get (descriptor req indexName) ''hash'')
                   (js_get (js_get req ''index'') ''hash'')
                   (normRange (js_get (descriptor req indexName) ''range''))
                   (normRange (js_get (js_get req ''index'') ''range''))
                   (js_get (descriptor req indexName) ''proj'')))"
proof -
  from assms have vs: "validateSchema req = Inr (normRange (js_get (js_get req ''index'') ''range''))"
    by (auto simp: generateIndexSchema_def validateSchema_def Let_def split: if_splits sum.splits)
  from assms vs show ?thesis
    by (auto simp: generateIndexSchema_def split: if_splits prod.splits)
qed

lemma generateIndexSchema_guards:
  assumes "generateIndexSchema dc req indexName = Inr (req', indexSchema)"
  shows "\<not> nullish (js_get req ''secondaryIndexes'') \<and> \<not> isArray (js_get req ''secondaryIndexes'')
       \<and> \<not> nullish (descriptor req indexName) \<and> truthy (js_get (descriptor req indexName) ''hash'')"
  using assms by (auto simp: generateIndexSchema_def split: if_splits)

text \<open>A property that is neither \<^verbatim>\<open>length\<close> nor an array index is found on objects
  only: when \<^verbatim>\<open>generateIndexSchema\<close> returns, the schema, its \<^verbatim>\<open>secondaryIndexes\<close> and
  the descriptor are objects.\<close>

lemma digit_char_digit: "m < 10 \<Longrightarrow> digit_char m \<in> set ''0123456789''"
proof -
  assume "m < 10"
  then have m: "m = 0 \<or> m = 1 \<or> m = 2 \<or> m = 3 \<or> m = 4 \<or> m = 5 \<or> m = 6 \<or> m = 7 \<or> m = 8 \<or> m = 9"
    by arith
  have c: "digit_char 0 \<in> set ''0123456789''" "digit_char 1 \<in> set ''0123456789''"
    "digit_char 2 \<in> set ''0123456789''" "digit_char 3 \<in> set ''0123456789''"
    "digit_char 4 \<in> set ''0123456789''" "digit_char 5 \<in> set ''0123456789''"
    "digit_char 6 \<in> set ''0123456789''" "digit_char 7 \<in> set ''0123456789''"
    "digit_char 8 \<in> set ''0123456789''" "digit_char 9 \<in> set ''0123456789''"
    by code_simp+
  from m c show ?thesis by (elim disjE) blast+
qed

lemma show_nat_digits: "set (show_nat n) \<subseteq> set ''0123456789''"
proof (induction n rule: show_nat.induct)
  case (1 n)
  show ?case
  proof (cases "n < 10")
    case True
    then show ?thesis using digit_char_digit [of n] by (subst show_nat.simps) simp
  next
    case False
    have "n mod 10 < 10" by simp
    from digit_char_digit [OF this] 1 [OF False] False show ?thesis
      by (subst show_nat.simps) simp
  qed
qed

lemma indexed_key_digits: "map_of (indexed xs) k = Some x \<Longrightarrow> set k \<subseteq> set ''0123456789''"
proof -
  assume "map_of (indexed xs) k = Some x"
  then have "(k, x) \<in> set (zip (map show_nat [0..<length xs]) xs)"
    unfolding indexed_def by (rule map_of_SomeD)
  then have "k \<in> set (map show_nat [0..<length xs])" by (rule set_zip_leftD)
  then show ?thesis using show_nat_digits by auto
qed

lemma js_get_named:
  assumes "js_get v k \<noteq> JUndef" "k \<noteq> ''length''" "\<not> set k \<subseteq> set ''0123456789''"
  shows "\<exists>kvs. v = JObj kvs"
proof (cases v)
  case (JArr xs)
  with assms(1,2) obtain x where "map_of (indexed xs) k = Some x" by (auto split: option.splits)
  from indexed_key_digits [OF this] assms(3) show ?thesis by simp
next
  case (JStr s)
  with assms(1,2) obtain x where "map_of (indexed (map (\<lambda>c. JStr [c]) s)) k = Some x"
    by (auto split: option.splits)
  from indexed_key_digits [OF this] assms(3) show ?thesis by simp
qed (use assms in auto)

lemma truthy_not_undef: "truthy v \<Longrightarrow> v \<noteq> JUndef"
  by auto

lemma js_get_string_no_object: "js_get (JStr s) k \<noteq> JObj kvs"
proof (cases "k = ''length''")
  case True
  then show ?thesis by simp
next
  case False
  show ?thesis
  proof (cases "map_of (indexed (map (\<lambda>c. JStr [c]) s)) k")
    case None
    with False show ?thesis by simp
  next
    case (Some x)
    then have "(k, x) \<in> set (zip (map show_nat [0..<length (map (\<lambda>c. JStr [c]) s)]) (map (\<lambda>c. JStr [c]) s))"
      unfolding indexed_def by (rule map_of_SomeD)
    then have "x \<in> set (map (\<lambda>c. JStr [c]) s)" by (rule set_zip_rightD)
    with Some False show ?thesis by auto
  qed
qed

lemma generateIndexSchema_objects:
  assumes "generateIndexSchema dc req indexName = Inr (req', indexSchema)"
  shows "\<exists>rkvs skvs dkvs. req = JObj rkvs \<and> js_get req ''secondaryIndexes'' = JObj skvs
           \<and> descriptor req indexName = JObj dkvs"
proof -
  note g = generateIndexSchema_guards [OF assms]
  from g have h: "js_get (descriptor req indexName) ''hash'' \<noteq> JUndef" by (auto dest: truthy_not_undef)
  from js_get_named [OF h] obtain dkvs where d: "descriptor req indexName = JObj dkvs" by auto
  have "\<exists>skvs. js_get req ''secondaryIndexes'' = JObj skvs"
  proof (cases "js_get req ''secondaryIndexes''")
    case (JStr s)
    with d js_get_string_no_object show ?thesis by (simp add: descriptor_def)
  qed (use g d in \<open>auto simp: descriptor_def\<close>)
  then obtain skvs where s: "js_get req ''secondaryIndexes'' = JObj skvs" by blast
  then have "js_get req ''secondaryIndexes'' \<noteq> JUndef" by simp
  from js_get_named [OF this] obtain rkvs where "req = JObj rkvs" by auto
  with s d show ?thesis by blast
qed

text \<open>The range that the loops of \<^verbatim>\<open>generateIndexSchema\<close> build is the closed
  clustering list.\<close>

lemma addPrimaryRange_exact:
  "fst (addPrimaryRange A ri (r, ia))
     = r @ firstOccurrences (filter (\<lambda>att. \<not> truthy (js_get (JObj A) (key_of att)) \<and> att \<notin> set r) ri)"
proof (induction ri arbitrary: r ia)
  case Nil
  then show ?case by simp
next
  case (Cons att ri)
  show ?case
  proof (cases "\<not> truthy (js_get (JObj A) (key_of att)) \<and> att \<notin> set r")
    case True
    have f: "filter (\<lambda>y. y \<noteq> att) (filter (\<lambda>x. \<not> truthy (js_get (JObj A) (key_of x)) \<and> x \<notin> set r) ri)
           = filter (\<lambda>x. \<not> truthy (js_get (JObj A) (key_of x)) \<and> x \<notin> set (r @ [att])) ri"
      by (auto intro: filter_cong)
    from True have "fst (addPrimaryRange A (att # ri) (r, ia))
        = fst (addPrimaryRange A ri (r @ [att], obj_set ia (key_of att) (JBool True)))"
      by (simp del: js_get.simps)
    also have "\<dots> = (r @ [att]) @ firstOccurrences
          (filter (\<lambda>x. \<not> truthy (js_get (JObj A) (key_of x)) \<and> x \<notin> set (r @ [att])) ri)"
      by (rule Cons.IH)
    finally show ?thesis using True f by (simp del: js_get.simps)
  next
    case False
    then have "fst (addPrimaryRange A (att # ri) (r, ia)) = fst (addPrimaryRange A ri (r, ia))"
      by (auto simp del: js_get.simps)
    with Cons.IH [of r ia] False show ?thesis by (auto simp del: js_get.simps)
  qed
qed

lemma addPrimaryKey_exact:
  "fst (addPrimaryRange A ri (addPrimaryHash A phash r, ia))
     = r @ firstOccurrences (filter (\<lambda>att. \<not> truthy (js_get (JObj A) (key_of att)) \<and> att \<notin> set r) (phash # ri))"
proof -
  have "fst (addPrimaryRange A ri (addPrimaryHash A phash r, ia)) = fst (addPrimaryRange A (phash # ri) (r, ia))"
    by (simp add: addPrimaryHash_def addPrimaryRange_exact del: js_get.simps)
  then show ?thesis by (simp only: addPrimaryRange_exact)
qed

lemma pullTypes_exact:
  assumes "\<forall>k. js_get (JObj attributes) k = js_get (JObj A) k
             \<or> (\<not> truthy (js_get (JObj A) k) \<and> js_get (JObj attributes) k = js_get ra k)"
  shows "snd (pullTypes ra r (attributes, h))
       = (h \<or> list_ex (\<lambda>att. (if truthy (js_get (JObj A) (key_of att)) then js_get (JObj A) (key_of att)
                                else js_get ra (key_of att)) = JStr ''timeuuid'') r)"
  using assms
proof (induction r arbitrary: attributes h)
  case Nil
  then show ?case by simp
next
  case (Cons att r)
  let ?k = "key_of att"
  let ?attributes' = "(if \<not> truthy (js_get (JObj attributes) ?k)
        then obj_set attributes ?k (js_get ra ?k) else attributes)"
  let ?ct = "if truthy (js_get (JObj A) ?k) then js_get (JObj A) ?k else js_get ra ?k"
  have step: "pullTypes ra (att # r) (attributes, h)
            = pullTypes ra r (?attributes', h \<or> js_get (JObj ?attributes') ?k = JStr ''timeuuid'')"
    by (simp add: Let_def del: js_get.simps)
  from Cons.prems have here: "js_get (JObj attributes) ?k = js_get (JObj A) ?k
             \<or> (\<not> truthy (js_get (JObj A) ?k) \<and> js_get (JObj attributes) ?k = js_get ra ?k)"
    by blast
  have ct: "js_get (JObj ?attributes') ?k = ?ct"
    using here by (auto simp: js_get_obj_set simp del: js_get.simps)
  have inv: "\<forall>k. js_get (JObj ?attributes') k = js_get (JObj A) k
             \<or> (\<not> truthy (js_get (JObj A) k) \<and> js_get (JObj ?attributes') k = js_get ra k)"
  proof
    fix k
    from Cons.prems have hk: "js_get (JObj attributes) k = js_get (JObj A) k
             \<or> (\<not> truthy (js_get (JObj A) k) \<and> js_get (JObj attributes) k = js_get ra k)"
      by blast
    show "js_get (JObj ?attributes') k = js_get (JObj A) k
             \<or> (\<not> truthy (js_get (JObj A) k) \<and> js_get (JObj ?attributes') k = js_get ra k)"
    proof (cases "truthy (js_get (JObj attributes) ?k)")
      case True
      with hk show ?thesis by (simp del: js_get.simps)
    next
      case False
      show ?thesis
      proof (cases "k = ?k")
        case True
        from here False have "\<not> truthy (js_get (JObj A) ?k)" by (auto simp del: js_get.simps)
        with True False show ?thesis by (simp add: js_get_obj_set del: js_get.simps)
      next
        case ne: False
        with False hk show ?thesis by (simp add: js_get_obj_set del: js_get.simps)
      qed
    qed
  qed
  from Cons.IH [OF inv] show ?case unfolding step ct by (auto simp del: js_get.simps)
qed

lemma companionParts_range_eq:
  "fst (snd (companionParts ra hash phash range0 ri proj))
     = (let r2 = fst (addPrimaryRange (companionBase ra hash) ri
                        (addPrimaryHash (companionBase ra hash) phash range0,
                         markRange range0 [(key_of hash, JBool True)]))
        in if \<not> snd (pullTypes ra r2 (companionBase ra hash, False)) then r2 @ [JStr ''_tid''] else r2)"
  by (simp add: companionParts_def Let_def case_prod_beta)

lemma companionParts_closed:
  "fst (snd (companionParts (js_get req ''attributes'')
                   (js_get (descriptor req indexName) ''hash'')
                   (js_get (js_get req ''index'') ''hash'')
                   (normRange (js_get (descriptor req indexName) ''range''))
                   (normRange (js_get (js_get req ''index'') ''range''))
                   proj))
     = closedRange req indexName"
proof -
  let ?ra = "js_get req ''attributes''"
  let ?hash = "js_get (descriptor req indexName) ''hash''"
  let ?A = "companionBase ?ra ?hash"
  let ?r0 = "normRange (js_get (descriptor req indexName) ''range'')"
  have k: "fst (addPrimaryRange ?A (normRange (js_get (js_get req ''index'') ''range''))
                        (addPrimaryHash ?A (js_get (js_get req ''index'') ''hash'') ?r0,
                         markRange ?r0 [(key_of ?hash, JBool True)]))
         = keyedRange req indexName"
    unfolding addPrimaryKey_exact keyedRange_def baseColumn_def primaryKey_def ..
  have t: "snd (pullTypes ?ra r (?A, False))
         = list_ex (\<lambda>att. columnType ?ra ?hash att = JStr ''timeuuid'') r" for r
    using pullTypes_exact [of ?A ?A ?ra r False]
    by (simp add: columnType_def baseColumn_def del: js_get.simps)
  show ?thesis
    unfolding companionParts_range_eq Let_def k t closedRange_def by simp
qed

lemma obj_set_same: "map_of kvs k = Some v \<Longrightarrow> obj_set kvs k v = kvs"
  by (induction kvs) (auto split: if_splits)

lemma js_get_Some: "js_get (JObj kvs) k = v \<Longrightarrow> v \<noteq> JUndef \<Longrightarrow> map_of kvs k = Some v"
  by (auto split: option.splits)

text \<open>
  Claim C10: \<^verbatim>\<open>generateIndexSchema\<close> writes to its input. Whenever it returns, the
  descriptor of the processed index in the parent schema has \<^verbatim>\<open>static\<close> overwritten
  with \<^verbatim>\<open>'__consistentUpTo'\<close>, whatever the user declared there, and \<^verbatim>\<open>range\<close>
  replaced by the closed clustering list: the descriptor's own range, then the primary hash
  key and the primary range keys that are neither columns of the companion already nor in
  the list, each once and in this order, then \<open>_tid\<close> exactly when no column of the list
  has the type \<^verbatim>\<open>timeuuid\<close>. The companion schema's \<^verbatim>\<open>index\<close> is this descriptor.
  Nothing else of the parent schema is written: the other properties of the descriptor, the
  other descriptors and the other properties of the schema are as before. So the parent
  schema is left unchanged exactly when the descriptor had this \<^verbatim>\<open>static\<close> and this
  \<^verbatim>\<open>range\<close> before the call.
\<close>

theorem generateIndexSchema_writes_descriptor:
  assumes "generateIndexSchema defaultConsistency req indexName = Inr (req', indexSchema)"
  shows "js_get (descriptor req' indexName) ''static'' = JStr ''__consistentUpTo''
       \<and> js_get (descriptor req' indexName) ''range'' = JArr (closedRange req indexName)
       \<and> js_get indexSchema ''index'' = descriptor req' indexName
       \<and> (\<forall>p. p \<noteq> ''static'' \<and> p \<noteq> ''range''
              \<longrightarrow> js_get (descriptor req' indexName) p = js_get (descriptor req indexName) p)
       \<and> (\<forall>n. n \<noteq> indexName \<longrightarrow> descriptor req' n = descriptor req n)
       \<and> (\<forall>p. p \<noteq> ''secondaryIndexes'' \<longrightarrow> js_get req' p = js_get req p)
       \<and> (req' = req \<longleftrightarrow>
            js_get (descriptor req indexName) ''static'' = JStr ''__consistentUpTo''
          \<and> js_get (descriptor req indexName) ''range'' = JArr (closedRange req indexName))"
proof -
  from generateIndexSchema_Inr [OF assms] obtain rangeCols where
    r: "req' = setDescriptor req indexName (closedDescriptor (descriptor req indexName) rangeCols)"
    and i: "js_get indexSchema ''index'' = closedDescriptor (descriptor req indexName) rangeCols"
    and rc: "rangeCols = fst (snd (companionParts (js_get req ''attributes'')
                   (js_get (descriptor req indexName) ''hash'')
                   (js_get (js_get req ''index'') ''hash'')
                   (normRange (js_get (descriptor req indexName) ''range''))
                   (normRange (js_get (js_get req ''index'') ''range''))
                   (js_get (descriptor req indexName) ''proj'')))"
    by blast
  from generateIndexSchema_objects [OF assms] obtain rkvs skvs dkvs where
    o: "req = JObj rkvs" "js_get req ''secondaryIndexes'' = JObj skvs" "descriptor req indexName = JObj dkvs"
    by blast
  have cr: "rangeCols = closedRange req indexName" unfolding rc by (rule companionParts_closed)
  have d: "descriptor req' indexName = closedDescriptor (descriptor req indexName) (closedRange req indexName)"
    using r cr by (simp add: descriptor_setDescriptor)
  have c1: "js_get (descriptor req' indexName) ''static'' = JStr ''__consistentUpTo''"
    unfolding d by (rule closedDescriptor_static)
  have c2: "js_get (descriptor req' indexName) ''range'' = JArr (closedRange req indexName)"
    unfolding d by (rule closedDescriptor_range)
  have c3: "js_get indexSchema ''index'' = descriptor req' indexName"
    using i d cr by simp
  have c4: "\<forall>p. p \<noteq> ''static'' \<and> p \<noteq> ''range''
              \<longrightarrow> js_get (descriptor req' indexName) p = js_get (descriptor req indexName) p"
    unfolding d o(3) closedDescriptor_def by (simp add: js_get_obj_set del: js_get.simps)
  have c5: "\<forall>n. n \<noteq> indexName \<longrightarrow> descriptor req' n = descriptor req n"
    unfolding r descriptor_def setDescriptor_def
    by (simp add: js_get_obj_set o(2) del: js_get.simps)
  have c6: "\<forall>p. p \<noteq> ''secondaryIndexes'' \<longrightarrow> js_get req' p = js_get req p"
    unfolding r setDescriptor_def by (simp add: js_get_obj_set o(1) del: js_get.simps)
  have c7: "req' = req" 
    if s: "js_get (descriptor req indexName) ''static'' = JStr ''__consistentUpTo''"
    and g: "js_get (descriptor req indexName) ''range'' = JArr (closedRange req indexName)"
  proof -
    from s o have ms: "map_of dkvs ''static'' = Some (JStr ''__consistentUpTo'')"
      by (intro js_get_Some) auto
    from g o have mg: "map_of dkvs ''range'' = Some (JArr (closedRange req indexName))"
      by (intro js_get_Some) auto
    have cd: "closedDescriptor (JObj dkvs) (closedRange req indexName) = JObj dkvs"
      unfolding closedDescriptor_def by (simp add: obj_set_same ms mg)
    from o have "js_get (JObj skvs) indexName = JObj dkvs" by (simp add: descriptor_def)
    then have md: "map_of skvs indexName = Some (JObj dkvs)" by (intro js_get_Some) auto
    from o have "js_get (JObj rkvs) ''secondaryIndexes'' = JObj skvs" by simp
    then have mr: "map_of rkvs ''secondaryIndexes'' = Some (JObj skvs)" by (intro js_get_Some) auto
    show ?thesis unfolding r cr
      using o cd md mr by (simp add: setDescriptor_def obj_set_same del: js_get.simps)
  qed
  have c8: "js_get (descriptor req indexName) ''static'' = JStr ''__consistentUpTo''
          \<and> js_get (descriptor req indexName) ''range'' = JArr (closedRange req indexName)"
    if "req' = req"
    using c1 c2 that by simp
  from c1 c2 c3 c4 c5 c6 c7 c8 show ?thesis by blast
qed

theorem generateIndexSchema_writes_descriptor_witness:
  "(case generateIndexSchema (JNum 1) pagesSchema ''by_title'' of
      Inl e \<Rightarrow> False
    | Inr (req', indexSchema) \<Rightarrow>
        js_get (descriptor req' ''by_title'') ''static'' = JStr ''__consistentUpTo''
      \<and> js_get (descriptor req' ''by_title'') ''range'' = JArr [JStr ''key'', JStr ''rev'', JStr ''_tid'']
      \<and> js_get indexSchema ''index'' = descriptor req' ''by_title''
      \<and> js_get (descriptor req' ''by_title'') ''hash'' = JStr ''title''
      \<and> js_get req' ''index'' = js_get pagesSchema ''index''
      \<and> req' \<noteq> pagesSchema)
   \<and> descriptor pagesSchema ''by_title'' = JObj [(''hash'', JStr ''title'')]
   \<and> closedRange pagesSchema ''by_title'' = [JStr ''key'', JStr ''rev'', JStr ''_tid'']"
proof -
  have "\<not> isl (generateIndexSchema (JNum 1) pagesSchema ''by_title'')" by code_simp
  then obtain req' indexSchema where
    e: "generateIndexSchema (JNum 1) pagesSchema ''by_title'' = Inr (req', indexSchema)"
    by (cases "generateIndexSchema (JNum 1) pagesSchema ''by_title''") auto
  have c: "closedRange pagesSchema ''by_title'' = [JStr ''key'', JStr ''rev'', JStr ''_tid'']"
    by code_simp
  have d: "descriptor pagesSchema ''by_title'' = JObj [(''hash'', JStr ''title'')]" by code_simp
  have i: "js_get pagesSchema ''index'' = JObj [(''hash'', JStr ''key''), (''range'', JStr ''rev'')]"
    by code_simp
  note th = generateIndexSchema_writes_descriptor [OF e]
  from th have s: "js_get (descriptor req' ''by_title'') ''static'' = JStr ''__consistentUpTo''" by blast
  from th c have r: "js_get (descriptor req' ''by_title'') ''range''
      = JArr [JStr ''key'', JStr ''rev'', JStr ''_tid'']" by simp
  from th have x: "js_get indexSchema ''index'' = descriptor req' ''by_title''" by blast
  from th have "js_get (descriptor req' ''by_title'') ''hash'' = js_get (descriptor pagesSchema ''by_title'') ''hash''"
    by simp
  with d have h: "js_get (descriptor req' ''by_title'') ''hash'' = JStr ''title''" by simp
  from th have f: "js_get req' ''index'' = js_get pagesSchema ''index''" by simp
  from th d have ne: "req' \<noteq> pagesSchema" by auto
  from e s r x h f ne d c show ?thesis by simp
qed

text \<open>An index whose own range holds a \<^verbatim>\<open>timeuuid\<close> column gets no \<open>_tid\<close>, and a
  primary key column that the index already has is not appended again.\<close>

lemma closedRange_timeuuid:
  "closedRange (JObj
     [(''attributes'', JObj [(''key'', JStr ''string''), (''ts'', JStr ''timeuuid''),
                             (''title'', JStr ''string'')]),
      (''index'', JObj [(''hash'', JStr ''key''), (''range'', JArr [JStr ''ts'', JStr ''title''])]),
      (''secondaryIndexes'', JObj [(''by_title'', JObj [(''hash'', JStr ''title''),
                                                       (''range'', JStr ''ts'')])])]) ''by_title''
   = [JStr ''ts'', JStr ''key'']"
  by code_simp


section \<open>Placeholders and parameters of a predicate\<close>

lemma markers_quoted_plain: "CHR 0x22 \<notin> set a \<Longrightarrow> markers True (a @ s) = markers True s"
  by (induction a) auto

lemma markers_quoted_escaped:
  "markers True (concat (map (\<lambda>c. if c = CHR 0x22 then dquote @ dquote else [c]) k) @ s) = markers True s"
  by (induction k) (auto simp: dquote_def)

lemma word_no_quote: "list_all is_word_char name \<Longrightarrow> CHR 0x22 \<notin> set name"
  by (induction name) (auto simp: is_word_char_def)

lemma markers_cassID: "markers False (cassID k @ s) = markers False s"
proof -
  have a: "markers False (dquote @ b @ dquote @ s) = markers True (b @ dquote @ s)" for b
    by (simp add: dquote_def)
  have c: "markers True (dquote @ s) = markers False s" by (simp add: dquote_def)
  show ?thesis
  proof (cases "k \<noteq> [] \<and> list_all is_word_char k")
    case True
    then have "CHR 0x22 \<notin> set k" by (simp add: word_no_quote)
    moreover from True have "cassID k = dquote @ k @ dquote" by (simp add: cassID_def)
    ultimately show ?thesis by (simp add: a c markers_quoted_plain)
  next
    case False
    then have "cassID k = dquote @ concat (map (\<lambda>c. if c = CHR 0x22 then dquote @ dquote else [c]) k) @ dquote"
      by (auto simp: cassID_def)
    then show ?thesis by (simp add: a c markers_quoted_escaped)
  qed
qed

lemma join_Cons: "join sep (c # cs) = (if cs = [] then c else c @ sep @ join sep cs)"
  by (cases cs) auto

lemma condOp_markers:
  assumes "condOp k predOp arg = Inr (c, ps)"
  shows "markers False (c @ s) = length ps + markers False s"
  using assms
  by (auto simp: condOp_def Let_def markers_cassID split: if_splits sum.splits)

lemma condEntry_markers:
  assumes "condEntry p k v = Inr (c, ps)"
  shows "markers False (c @ s) = length ps + markers False s"
  using assms
  by (auto simp: condEntry_def markers_cassID dest: condOp_markers
           split: if_splits jsval.splits list.splits prod.splits)

lemma condLoop_markers:
  "condLoop p es = Inr (cs, ps) \<Longrightarrow> markers False (join '' AND '' cs @ s) = length ps + markers False s"
proof (induction es arbitrary: cs ps s)
  case Nil
  then show ?case by simp
next
  case (Cons e es)
  obtain k v where e: "e = (k, v)" by (cases e)
  from Cons.prems(1) e obtain c qs cs' ps' where
    ce: "condEntry p k v = Inr (c, qs)" and cl: "condLoop p es = Inr (cs', ps')"
    and cs: "cs = c # cs'" and ps: "ps = qs @ ps'"
    by (auto split: sum.splits prod.splits)
  show ?case
  proof (cases "cs' = []")
    case True
    with cl have "ps' = []" by (cases es) (auto split: sum.splits prod.splits)
    with True cs ps condEntry_markers [OF ce, of s] show ?thesis by simp
  next
    case False
    have "markers False (join '' AND '' cs @ s) = markers False (c @ ('' AND '' @ join '' AND '' cs' @ s))"
      using False cs by (simp add: join_Cons)
    also have "\<dots> = length qs + markers False ('' AND '' @ join '' AND '' cs' @ s)"
      by (rule condEntry_markers [OF ce])
    also have "markers False ('' AND '' @ join '' AND '' cs' @ s) = markers False (join '' AND '' cs' @ s)"
      by simp
    also have "\<dots> = length ps' + markers False s" by (rule Cons.IH [OF cl])
    finally show ?thesis using ps by simp
  qed
qed

lemma condOp_shape:
  "condOp k predOp a = Inr (c, ps) \<Longrightarrow> condOp k predOp b = Inr (c', ps') \<Longrightarrow> c' = c"
  by (auto simp: condOp_def Let_def split: if_splits sum.splits)

lemma condEntry_shape:
  assumes "condEntry p k v = Inr (c, ps)" and "condEntry p' k w = Inr (c', ps')" and "sameShape v w"
  shows "c' = c"
proof (cases "is_String v")
  case True
  then have "is_String w" using assms(3) by (simp add: sameShape_def)
  with True assms(1,2) show ?thesis by (auto simp: condEntry_def split: if_splits)
next
  case False
  note nv = False
  show ?thesis
  proof (cases v)
    case (JObj kvs)
    with nv assms(3) obtain kvs' where w: "w = JObj kvs'" and m: "map fst kvs = map fst kvs'"
      by (auto simp: sameShape_def split: jsval.splits)
    from assms(1) JObj obtain predOp a where kvs: "kvs = [(predOp, a)]" and o1: "condOp k predOp a = Inr (c, ps)"
      by (auto simp: condEntry_def split: if_splits list.splits prod.splits)
    from m kvs obtain b where kvs': "kvs' = [(predOp, b)]" by (cases kvs') auto
    from assms(2) w kvs' have "condOp k predOp b = Inr (c', ps')"
      by (auto simp: condEntry_def split: if_splits)
    with o1 show ?thesis by (rule condOp_shape)
  next
    case JUndef with assms(1) show ?thesis by (simp add: condEntry_def)
  next
    case JNull with assms(1) show ?thesis by (simp add: condEntry_def)
  next
    case (JBool b)
    with nv assms(3) have "\<not> is_String w" "\<forall>kvs. w \<noteq> JObj kvs" by (auto simp: sameShape_def)
    with JBool assms(1,2) show ?thesis by (auto simp: condEntry_def split: if_splits jsval.splits)
  next
    case (JNum n)
    with nv assms(3) have "\<not> is_String w" "\<forall>kvs. w \<noteq> JObj kvs" by (auto simp: sameShape_def)
    with JNum assms(1,2) show ?thesis by (auto simp: condEntry_def split: if_splits jsval.splits)
  next
    case (JArr xs)
    with nv assms(3) have "\<not> is_String w" "\<forall>kvs. w \<noteq> JObj kvs" by (auto simp: sameShape_def)
    with JArr assms(1,2) show ?thesis by (auto simp: condEntry_def split: if_splits jsval.splits)
  next
    case (JStr s) with nv show ?thesis by simp
  next
    case (JUuid a b c d) with nv show ?thesis by simp
  next
    case (JText t) with nv show ?thesis by simp
  qed
qed

lemma condLoop_shape:
  "condLoop p es = Inr (cs, ps) \<Longrightarrow> condLoop p' es' = Inr (cs', ps') \<Longrightarrow>
   map fst es' = map fst es \<Longrightarrow> list_all2 sameShape (map snd es) (map snd es') \<Longrightarrow> cs' = cs"
proof (induction es arbitrary: es' cs ps cs' ps')
  case Nil
  then show ?case by simp
next
  case (Cons e es)
  obtain k v where e: "e = (k, v)" by (cases e)
  from Cons.prems(3) e obtain w es2 where es': "es' = (k, w) # es2" and m: "map fst es2 = map fst es"
    by (cases es') auto
  from Cons.prems(4) e es' have sh: "sameShape v w" and rest: "list_all2 sameShape (map snd es) (map snd es2)"
    by auto
  from Cons.prems(1) e obtain c qs cs1 ps1 where
    ce: "condEntry p k v = Inr (c, qs)" and cl: "condLoop p es = Inr (cs1, ps1)" and cs: "cs = c # cs1"
    by (auto split: sum.splits prod.splits)
  from Cons.prems(2) es' obtain c2 qs2 cs2 ps2 where
    ce2: "condEntry p' k w = Inr (c2, qs2)" and cl2: "condLoop p' es2 = Inr (cs2, ps2)" and cs': "cs' = c2 # cs2"
    by (auto split: sum.splits prod.splits)
  have "c2 = c" using ce ce2 sh by (rule condEntry_shape)
  moreover have "cs2 = cs1" using Cons.IH [OF cl cl2 m rest] .
  ultimately show ?case using cs cs' by simp
qed

lemma buildCondition_obj_Inr:
  "buildCondition (JObj pred) = Inr r \<Longrightarrow>
   \<exists>cs ps. condLoop (JObj pred) pred = Inr (cs, ps) \<and> query r = join '' AND '' cs \<and> params r = ps"
  by (auto simp: buildCondition_def split: sum.splits prod.splits)

lemma buildCondition_Inr:
  "buildCondition pred = Inr r \<Longrightarrow>
   \<exists>cs ps. condLoop pred (entriesOf pred) = Inr (cs, ps) \<and> query r = join '' AND '' cs \<and> params r = ps"
  by (auto simp: buildCondition_def entriesOf_def split: sum.splits prod.splits)

text \<open>
  Claim C7: for every predicate map on which \<^verbatim>\<open>buildCondition\<close> returns, the number of
  \<^verbatim>\<open>?\<close> placeholders in the query equals the number of parameters, and no predicate
  value appears textually in the query: values are only bound through placeholders.

  The placeholders of a query are its bind markers, the \<^verbatim>\<open>?\<close> outside the quoted
  attribute names (an attribute name is quoted into the query whatever its characters, so
  a \<^verbatim>\<open>?\<close> of a name is inside a quoted identifier). That no value reaches the text is
  stated as: the query is the same for every predicate map with the same attribute names
  and, attribute by attribute, a value of the same shape (a string, an object with the same
  operator, or neither).
\<close>

theorem buildCondition_placeholders:
  assumes "buildCondition pred = Inr r"
  shows "placeholders (query r) = length (params r)
       \<and> (\<forall>pred' r'. map fst (entriesOf pred') = map fst (entriesOf pred)
              \<and> list_all2 sameShape (map snd (entriesOf pred)) (map snd (entriesOf pred'))
              \<and> buildCondition pred' = Inr r' \<longrightarrow> query r' = query r)"
proof -
  from buildCondition_Inr [OF assms] obtain cs ps where
    cl: "condLoop pred (entriesOf pred) = Inr (cs, ps)" and q: "query r = join '' AND '' cs"
    and p: "params r = ps"
    by blast
  have a: "placeholders (query r) = length (params r)"
    using condLoop_markers [OF cl, of "[]"] q p by (simp add: placeholders_def)
  have b: "query r' = query r"
    if "map fst (entriesOf pred') = map fst (entriesOf pred)"
       "list_all2 sameShape (map snd (entriesOf pred)) (map snd (entriesOf pred'))"
       "buildCondition pred' = Inr r'" for pred' r'
  proof -
    from buildCondition_Inr [OF that(3)] obtain cs' ps' where
      cl': "condLoop pred' (entriesOf pred') = Inr (cs', ps')" and q': "query r' = join '' AND '' cs'"
      by blast
    have "cs' = cs" using cl cl' that(1,2) by (rule condLoop_shape)
    with q q' show ?thesis by simp
  qed
  from a b show ?thesis by blast
qed

theorem buildCondition_placeholders_witness:
  "buildCondition (JObj [(''a?'', JStr ''a''), (''ts'', JObj [(''between'', JArr [JNum 1, JNum 2])])])
     = Inr \<lparr>query = dquote @ ''a?'' @ dquote @ '' = ? AND '' @ dquote @ ''ts'' @ dquote @ '' >= ? AND ''
                     @ dquote @ ''ts'' @ dquote @ '' <= ?'',
            params = [JStr ''a'', JNum 1, JNum 2]\<rparr>
   \<and> placeholders (dquote @ ''a?'' @ dquote @ '' = ? AND '' @ dquote @ ''ts'' @ dquote @ '' >= ? AND ''
                     @ dquote @ ''ts'' @ dquote @ '' <= ?'') = 3
   \<and> query (projr (buildCondition (JObj [(''a?'', JStr ''ts''), (''ts'', JObj [(''between'', JArr [JNum 3, JNum 4])])])))
       = dquote @ ''a?'' @ dquote @ '' = ? AND '' @ dquote @ ''ts'' @ dquote @ '' >= ? AND ''
                     @ dquote @ ''ts'' @ dquote @ '' <= ?''"
proof -
  let ?P = "JObj [(''a?'', JStr ''a''), (''ts'', JObj [(''between'', JArr [JNum 1, JNum 2])])]"
  let ?P' = "JObj [(''a?'', JStr ''ts''), (''ts'', JObj [(''between'', JArr [JNum 3, JNum 4])])]"
  let ?q = "dquote @ ''a?'' @ dquote @ '' = ? AND '' @ dquote @ ''ts'' @ dquote @ '' >= ? AND ''
                     @ dquote @ ''ts'' @ dquote @ '' <= ?''"
  let ?R = "\<lparr>query = ?q, params = [JStr ''a'', JNum 1, JNum 2]\<rparr>"
  have e: "buildCondition ?P = Inr ?R" by code_simp
  have n: "\<not> isl (buildCondition ?P')" by code_simp
  then obtain r' where e': "buildCondition ?P' = Inr r'"
    by (cases "buildCondition ?P'") auto
  have sh: "map fst (entriesOf ?P') = map fst (entriesOf ?P)
          \<and> list_all2 sameShape (map snd (entriesOf ?P)) (map snd (entriesOf ?P'))"
    by (simp add: sameShape_def entriesOf_def)
  note th = buildCondition_placeholders [OF e]
  from th have c1: "placeholders (query ?R) = length (params ?R)" by blast
  from th sh e' have c2: "query r' = query ?R" by blast
  from e e' c1 c2 show ?thesis by simp
qed


section \<open>Statements of a put\<close>

lemma indexKVLoop_Inr:
  "indexKVLoop now ra ks = Inr m \<Longrightarrow> m = keyMap now ra ks"
  by (induction ks arbitrary: m) (auto simp: keyMap_def split: if_splits sum.splits)

lemma attrLoop_Inr:
  "attrLoop sa ia attrs = Inr (keys, ps, phs) \<Longrightarrow>
     keys = map fst (nonKeyAttrs sa ia attrs)
   \<and> ps = map (\<lambda>kv. bindValue (snd kv)) (nonKeyAttrs sa ia attrs)
   \<and> phs = replicate (length (filter (declared sa) attrs)) ''?''"
proof (induction attrs arbitrary: keys ps phs)
  case Nil
  then show ?case by (simp add: nonKeyAttrs_def)
next
  case (Cons e attrs)
  obtain k v where e: "e = (k, v)" by (cases e)
  show ?case
  proof (cases "declared sa (k, v)")
    case False
    with Cons.prems e have "attrLoop sa ia attrs = Inr (keys, ps, phs)"
      by (auto simp: declared_def split: if_splits)
    from Cons.IH [OF this] False e show ?thesis
      by (simp add: nonKeyAttrs_def)
  next
    case True
    with Cons.prems e obtain keys' ps' phs' where
      r: "attrLoop sa ia attrs = Inr (keys', ps', phs')"
      and res: "(keys, ps, phs) = (if \<not> truthy (js_get ia k) then (k # keys', bindValue v # ps', ''?'' # phs')
                                   else (keys', ps', ''?'' # phs'))"
      by (auto simp: declared_def split: if_splits sum.splits prod.splits)
    from Cons.IH [OF r] res True e show ?thesis
      by (auto simp: nonKeyAttrs_def split: if_splits)
  qed
qed

lemma condLoop_params_member:
  "condLoop p m = Inr (cs, ps) \<Longrightarrow> (k, v) \<in> set m \<Longrightarrow> is_String v \<Longrightarrow> v \<in> set ps"
proof (induction m arbitrary: cs ps)
  case Nil
  then show ?case by simp
next
  case (Cons e m)
  obtain k' v' where e: "e = (k', v')" by (cases e)
  from Cons.prems(1) e obtain c qs cs' ps' where
    ce: "condEntry p k' v' = Inr (c, qs)" and cl: "condLoop p m = Inr (cs', ps')" and ps: "ps = qs @ ps'"
    by (auto split: sum.splits prod.splits)
  show ?case
  proof (cases "(k, v) = (k', v')")
    case True
    with ce Cons.prems(3) have "qs = [v]" by (auto simp: condEntry_def split: if_splits)
    with ps show ?thesis by simp
  next
    case False
    with Cons.prems(2) e have "(k, v) \<in> set m" by auto
    from Cons.IH [OF cl this Cons.prems(3)] ps show ?thesis by simp
  qed
qed

lemma is_String_not_nullish: "is_String v \<Longrightarrow> \<not> nullish v"
  by (cases v) auto

lemma condLoop_strings:
  "list_all (\<lambda>kv. is_String (snd kv)) m \<Longrightarrow>
   condLoop p m = Inr (map (\<lambda>kv. cassID (fst kv) @ '' = ?'') m, map snd m)"
  by (induction m) (auto simp: condEntry_def is_String_not_nullish)

lemma normalizeReqIf_if:
  "normalizeReqIf req = Inr req' \<Longrightarrow> js_get req' ''if'' = normalizedIf (js_get req ''if'')"
  by (auto simp: normalizeReqIf_def normalizedIf_def js_get_obj_set simp del: js_get.simps
           split: jsval.splits if_splits)

lemma buildPutQuery_Inr:
  assumes "buildPutQuery now req ks table schema = Inr (req', q)"
  shows "\<exists>iakvs condRes st.
           putIndexAttributes table schema = JObj iakvs
         \<and> for_in (js_get req ''attributes'') = Inr (supplied req)
         \<and> normalizeReqIf req = Inr req'
         \<and> buildCondition (JObj (keyMap now (js_get req ''attributes'') (map fst iakvs))) = Inr condRes
         \<and> putStatement ks (putTable table) (map fst iakvs)
               (map fst (nonKeyAttrs (js_get schema ''attributes'') (JObj iakvs) (supplied req)))
               (map (\<lambda>kv. bindValue (snd kv)) (nonKeyAttrs (js_get schema ''attributes'') (JObj iakvs) (supplied req)))
               (replicate (length (filter (declared (js_get schema ''attributes'')) (supplied req))) ''?'')
               (js_get req' ''if'') condRes = Inr st
         \<and> putCondition (js_get req' ''if'') st = Inr q"
proof -
  from assms obtain iakvs where ia: "putIndexAttributes table schema = JObj iakvs"
    and body: "putBody now req ks (putTable table) schema iakvs = Inr (req', q)"
    by (auto simp: buildPutQuery_def split: if_splits jsval.splits)
  from body obtain m attrs keys ps phs condRes st where
    m: "indexKVLoop now (js_get req ''attributes'') (map fst iakvs) = Inr m"
    and fi: "for_in (js_get req ''attributes'') = Inr attrs"
    and al: "attrLoop (js_get schema ''attributes'') (JObj iakvs) attrs = Inr (keys, ps, phs)"
    and nr: "normalizeReqIf req = Inr req'"
    and bc: "buildCondition (JObj m) = Inr condRes"
    and pst: "putStatement ks (putTable table) (map fst iakvs) keys ps phs (js_get req' ''if'') condRes = Inr st"
    and pc: "putCondition (js_get req' ''if'') st = Inr q"
    by (auto simp: putBody_def split: sum.splits prod.splits)
  have s: "supplied req = attrs" using fi by (simp add: supplied_def)
  from indexKVLoop_Inr [OF m] attrLoop_Inr [OF al] ia fi nr bc pst pc s show ?thesis
    by auto
qed

lemma putCondition_Inr:
  "putCondition reqIf st = Inr q \<Longrightarrow>
   \<exists>suffix ifPs. query q = query st @ suffix \<and> params q = params st @ ifPs
      \<and> (reqIf = JStr ''not exists'' \<longrightarrow> suffix = '' if not exists '' \<and> ifPs = [])"
  by (auto simp: putCondition_def split: if_splits sum.splits)


lemma putKeys_obj: "putIndexAttributes table schema = JObj iakvs \<Longrightarrow> putKeys table schema = map fst iakvs"
  by (simp add: putKeys_def)

lemma putStatement_Inr:
  "putStatement ks tbl indexKeys keys ps phs reqIf condRes = Inr st \<Longrightarrow>
   \<exists>rest. (if keys = [] \<or> reqIf = JStr ''not exists''
           then query st = ''insert into '' @ cassID ks @ ''.'' @ cassID tbl @ '' '' @ rest
              \<and> params st = params condRes @ ps
           else query st = ''update '' @ cassID ks @ ''.'' @ cassID tbl @ '' '' @ rest
              \<and> params st = ps @ params condRes)"
  by (auto simp: putStatement_def split: if_splits)

lemma map_of_keyMap:
  "map_of (keyMap now ra ks) k
     = (if k \<in> set ks then Some (if k = ''_tid'' then tidFromDate now else js_get ra k) else None)"
  by (induction ks) (auto simp: keyMap_def)

lemma truthy_get_key: "truthy (js_get (JObj kvs) k) \<Longrightarrow> k \<in> set (map fst kvs)"
  by (auto split: option.splits dest: map_of_SomeD intro: rev_image_eqI)

lemma putStatement_params:
  "putStatement ks tbl indexKeys keys ps phs reqIf condRes = Inr st \<Longrightarrow>
   set (params condRes) \<subseteq> set (params st)"
  by (auto simp: putStatement_def split: if_splits)

lemma indexKVLoop_withTid:
  "indexKVLoop now (JObj (obj_set A ''_tid'' v)) ks = indexKVLoop now (JObj (obj_set A ''_tid'' v')) ks"
  by (induction ks) (auto simp: js_get_obj_set simp del: js_get.simps split: sum.splits)

lemma attrLoop_withTid:
  assumes "truthy (js_get ia ''_tid'')" "v \<noteq> JUndef" "v \<noteq> JNull" "v' \<noteq> JUndef" "v' \<noteq> JNull"
  shows "attrLoop sa ia (obj_set A ''_tid'' v) = attrLoop sa ia (obj_set A ''_tid'' v')"
  using assms by (induction A) (auto split: sum.splits prod.splits)

lemma putBody_withTid:
  assumes "truthy (js_get (JObj iakvs) ''_tid'')" "v \<noteq> JUndef" "v \<noteq> JNull" "v' \<noteq> JUndef" "v' \<noteq> JNull"
  shows "statementOf (putBody now (withTid v req) ks tbl schema iakvs)
       = statementOf (putBody now (withTid v' req) ks tbl schema iakvs)"
proof -
  let ?A = "obj_entries (js_get req ''attributes'')"
  have a: "js_get (withTid w req) ''attributes'' = JObj (obj_set ?A ''_tid'' w)" for w
    by (simp add: withTid_def js_get_obj_set del: js_get.simps)
  have i: "js_get (withTid w req) ''if'' = js_get (JObj (obj_entries req)) ''if''" for w
    by (simp add: withTid_def js_get_obj_set del: js_get.simps)
  have k: "indexKVLoop now (JObj (obj_set ?A ''_tid'' v)) (map fst iakvs)
         = indexKVLoop now (JObj (obj_set ?A ''_tid'' v')) (map fst iakvs)"
    by (rule indexKVLoop_withTid)
  have l: "attrLoop (js_get schema ''attributes'') (JObj iakvs) (obj_set ?A ''_tid'' v)
         = attrLoop (js_get schema ''attributes'') (JObj iakvs) (obj_set ?A ''_tid'' v')"
    using assms by (rule attrLoop_withTid)
  have n: "(case normalizeReqIf (withTid w req) of Inl e \<Rightarrow> Inl e | Inr r \<Rightarrow> Inr (js_get r ''if''))
         = (case js_get (JObj (obj_entries req)) ''if'' of
              JUuid nd cs ms ns \<Rightarrow> Inl Unmodelled
            | JText t \<Rightarrow> Inl Unmodelled
            | x \<Rightarrow> Inr (normalizedIf x))" for w
    unfolding normalizeReqIf_def normalizedIf_def i
    by (simp add: js_get_obj_set i del: js_get.simps split: jsval.splits)
  have body: "statementOf (putBody now (withTid w req) ks tbl schema iakvs)
     = (case indexKVLoop now (JObj (obj_set ?A ''_tid'' w)) (map fst iakvs) of
          Inl e \<Rightarrow> Inl e
        | Inr indexKVMap \<Rightarrow>
           (case attrLoop (js_get schema ''attributes'') (JObj iakvs) (obj_set ?A ''_tid'' w) of
              Inl e \<Rightarrow> Inl e
            | Inr (keys, ps, phs) \<Rightarrow>
               (case (case normalizeReqIf (withTid w req) of Inl e \<Rightarrow> Inl e | Inr r \<Rightarrow> Inr (js_get r ''if'')) of
                  Inl e \<Rightarrow> Inl e
                | Inr reqIf \<Rightarrow>
                   (case buildCondition (JObj indexKVMap) of
                      Inl e \<Rightarrow> Inl e
                    | Inr condRes \<Rightarrow>
                       (case putStatement ks tbl (map fst iakvs) keys ps phs reqIf condRes of
                          Inl e \<Rightarrow> Inl e
                        | Inr st \<Rightarrow> putCondition reqIf st)))))" for w
    unfolding putBody_def statementOf_def a
    by (simp split: sum.splits prod.splits)
  show ?thesis unfolding body n k l ..
qed

lemma buildCondition_strings:
  assumes "list_all (\<lambda>kv. is_String (snd kv)) m"
  shows "buildCondition (JObj m)
       = Inr \<lparr>query = join '' AND '' (map (\<lambda>kv. cassID (fst kv) @ '' = ?'') m), params = map snd m\<rparr>"
  using condLoop_strings [OF assms, of "JObj m"] by (simp add: buildCondition_def)

lemma putStatement_exact:
  "putStatement ks tbl indexKeys keys ps phs reqIf condRes = Inr st \<Longrightarrow>
   (if keys = [] \<or> reqIf = JStr ''not exists''
    then query st = ''insert into '' @ cassID ks @ ''.'' @ cassID tbl
                     @ '' ('' @ join '','' (map cassID (indexKeys @ keys))
                     @ '') values ('' @ join '','' phs @ '')''
       \<and> params st = params condRes @ ps
    else query st = ''update '' @ cassID ks @ ''.'' @ cassID tbl
                     @ '' set '' @ join '' = ?,'' (map cassID keys) @ '' = ? ''
                     @ '' where '' @ query condRes
       \<and> params st = ps @ params condRes)"
  by (auto simp: putStatement_def split: if_splits)

lemma putCondition_exact:
  "putCondition reqIf st = Inr q \<Longrightarrow>
   \<exists>suffix ifPs. query q = query st @ suffix \<and> params q = params st @ ifPs
      \<and> (if \<not> truthy reqIf then suffix = [] \<and> ifPs = []
         else if reqIf = JStr ''not exists'' then suffix = '' if not exists '' \<and> ifPs = []
         else (\<exists>ifCond. buildCondition reqIf = Inr ifCond
                 \<and> suffix = '' if '' @ query ifCond \<and> ifPs = params ifCond))"
  by (auto simp: putCondition_def split: if_splits sum.splits)

text \<open>
  Claim C5: \<^verbatim>\<open>buildPutQuery\<close> emits an \<^verbatim>\<open>INSERT\<close> when no non-key attributes are
  supplied or when \<^verbatim>\<open>req.if\<close> normalizes to \<^verbatim>\<open>"not exists"\<close>, binding key values first
  and non-key values then; in every other case with non-key attributes it emits an
  \<^verbatim>\<open>UPDATE\<close> binding non-key values first and key values then; and
  \<^verbatim>\<open>req.if = "not exists"\<close> appends \<^verbatim>\<open>IF NOT EXISTS\<close>.

  As stated the claim fails on a request that supplies a non-key attribute the schema does
  not declare: the loop over the supplied attributes skips it
  (\<^verbatim>\<open>schema.attributes[key]\<close>), so the statement is an \<^verbatim>\<open>INSERT\<close> of the key alone.
\<close>

theorem insert_or_update_counterexample:
  "buildPutQuery 0 (JObj [(''attributes'', JObj [(''key'', JStr ''a''), (''note'', JStr ''x'')])]) ''ks'' ''data''
      (JObj [(''attributes'', JObj [(''key'', JStr ''string''), (''body'', JStr ''string'')]),
             (''_restbase'', JObj [(''_indexAttributes'', JObj [(''key'', JBool True)])])])
   = Inr (JObj [(''attributes'', JObj [(''key'', JStr ''a''), (''note'', JStr ''x'')])],
          \<lparr>query = ''insert into '' @ dquote @ ''ks'' @ dquote @ ''.'' @ dquote @ ''data'' @ dquote
                     @ '' ('' @ dquote @ ''key'' @ dquote @ '') values (?)'',
           params = [JStr ''a'']\<rparr>)"
  by code_simp

text \<open>
  Claim C5, amended: on every put request on which \<^verbatim>\<open>buildPutQuery\<close> returns, the
  non-key attributes are the supplied attributes that are defined, declared in
  \<^verbatim>\<open>schema.attributes\<close> and not key columns, and \<^verbatim>\<open>req.if\<close> is left in its normal
  form (trimmed, white space collapsed, lower case). When there are no non-key attributes
  or \<^verbatim>\<open>req.if\<close> normalizes to \<^verbatim>\<open>"not exists"\<close>, the statement is
  \<^verbatim>\<open>insert into "<keyspace>"."<table>" (<key columns, non-key columns>) values (?,...)\<close>
  and its parameters are those of the key predicate, then the non-key values. Otherwise it is
  \<^verbatim>\<open>update "<keyspace>"."<table>" set <non-key column> = ?,...  where <key predicate>\<close>
  and its parameters are the non-key values, then those of the key predicate. The condition
  follows: nothing when \<^verbatim>\<open>req.if\<close> is absent; \<^verbatim>\<open> if not exists \<close>, binding nothing,
  when it normalizes to \<^verbatim>\<open>"not exists"\<close>; else \<^verbatim>\<open> if \<close> and the compiled predicate,
  whose parameters come last. When the key values are strings the key predicate is
  \<^verbatim>\<open>"<key>" = ?\<close> for each key column in the order of \<^verbatim>\<open>_indexAttributes\<close>, joined by
  \<^verbatim>\<open>AND\<close>, and its parameters are the key values in this order.

  The theorem gives the whole text of the statement. The claim does not speak about the
  number of placeholders of the \<^verbatim>\<open>INSERT\<close>; the theorem states it as the code builds
  it, one for each supplied attribute that is defined and declared.
\<close>

theorem insert_or_update:
  assumes "buildPutQuery now req keyspace table schema = Inr (req', q)"
  shows "\<exists>keyCond suffix ifPs.
      buildCondition (JObj (keyMap now (js_get req ''attributes'') (putKeys table schema))) = Inr keyCond
    \<and> (list_all (\<lambda>kv. is_String (snd kv)) (keyMap now (js_get req ''attributes'') (putKeys table schema))
         \<longrightarrow> query keyCond = join '' AND '' (map (\<lambda>kv. cassID (fst kv) @ '' = ?'')
                                 (keyMap now (js_get req ''attributes'') (putKeys table schema)))
           \<and> params keyCond = map snd (keyMap now (js_get req ''attributes'') (putKeys table schema)))
    \<and> js_get req' ''if'' = normalizedIf (js_get req ''if'')
    \<and> (if \<not> truthy (normalizedIf (js_get req ''if'')) then suffix = [] \<and> ifPs = []
       else if normalizedIf (js_get req ''if'') = JStr ''not exists''
       then suffix = '' if not exists '' \<and> ifPs = []
       else (\<exists>ifCond. buildCondition (normalizedIf (js_get req ''if'')) = Inr ifCond
               \<and> suffix = '' if '' @ query ifCond \<and> ifPs = params ifCond))
    \<and> (if putNonKeys req table schema = [] \<or> normalizedIf (js_get req ''if'') = JStr ''not exists''
       then query q = ''insert into '' @ cassID keyspace @ ''.'' @ cassID (putTable table)
                       @ '' ('' @ join '','' (map cassID (putKeys table schema
                                                          @ map fst (putNonKeys req table schema)))
                       @ '') values ('' @ join '','' (replicate (length (putDeclared req schema)) ''?'')
                       @ '')'' @ suffix
          \<and> params q = params keyCond @ map (\<lambda>kv. bindValue (snd kv)) (putNonKeys req table schema) @ ifPs
       else query q = ''update '' @ cassID keyspace @ ''.'' @ cassID (putTable table)
                       @ '' set '' @ join '' = ?,'' (map cassID (map fst (putNonKeys req table schema)))
                       @ '' = ? '' @ '' where '' @ query keyCond @ suffix
          \<and> params q = map (\<lambda>kv. bindValue (snd kv)) (putNonKeys req table schema) @ params keyCond @ ifPs)"
proof -
  let ?N = "putNonKeys req table schema"
  let ?K = "keyMap now (js_get req ''attributes'') (putKeys table schema)"
  let ?c = "normalizedIf (js_get req ''if'')"
  from buildPutQuery_Inr [OF assms] obtain iakvs condRes st where
    ia: "putIndexAttributes table schema = JObj iakvs"
    and nr: "normalizeReqIf req = Inr req'"
    and bc: "buildCondition (JObj (keyMap now (js_get req ''attributes'') (map fst iakvs))) = Inr condRes"
    and pst: "putStatement keyspace (putTable table) (map fst iakvs)
               (map fst (nonKeyAttrs (js_get schema ''attributes'') (JObj iakvs) (supplied req)))
               (map (\<lambda>kv. bindValue (snd kv)) (nonKeyAttrs (js_get schema ''attributes'') (JObj iakvs) (supplied req)))
               (replicate (length (filter (declared (js_get schema ''attributes'')) (supplied req))) ''?'')
               (js_get req' ''if'') condRes = Inr st"
    and pc: "putCondition (js_get req' ''if'') st = Inr q"
    by blast
  have pk: "putKeys table schema = map fst iakvs" using ia by (rule putKeys_obj)
  have N: "nonKeyAttrs (js_get schema ''attributes'') (JObj iakvs) (supplied req) = ?N"
    using ia by (simp add: putNonKeys_def)
  have D: "filter (declared (js_get schema ''attributes'')) (supplied req) = putDeclared req schema"
    by (simp add: putDeclared_def)
  have nif: "js_get req' ''if'' = ?c" using nr by (rule normalizeReqIf_if)
  from bc pk have bc': "buildCondition (JObj ?K) = Inr condRes" by simp
  have strs: "list_all (\<lambda>kv. is_String (snd kv)) ?K
         \<longrightarrow> query condRes = join '' AND '' (map (\<lambda>kv. cassID (fst kv) @ '' = ?'') ?K)
           \<and> params condRes = map snd ?K"
  proof
    assume "list_all (\<lambda>kv. is_String (snd kv)) ?K"
    from buildCondition_strings [OF this] bc' show
      "query condRes = join '' AND '' (map (\<lambda>kv. cassID (fst kv) @ '' = ?'') ?K)
           \<and> params condRes = map snd ?K" by auto
  qed
  note st = putStatement_exact [OF pst, unfolded N D nif pk [symmetric]]
  from putCondition_exact [OF pc, unfolded nif] obtain suffix ifPs where
    q: "query q = query st @ suffix" "params q = params st @ ifPs"
    and sf: "(if \<not> truthy ?c then suffix = [] \<and> ifPs = []
         else if ?c = JStr ''not exists'' then suffix = '' if not exists '' \<and> ifPs = []
         else (\<exists>ifCond. buildCondition ?c = Inr ifCond
                 \<and> suffix = '' if '' @ query ifCond \<and> ifPs = params ifCond))"
    by blast
  have main: "(if ?N = [] \<or> ?c = JStr ''not exists''
       then query q = ''insert into '' @ cassID keyspace @ ''.'' @ cassID (putTable table)
                       @ '' ('' @ join '','' (map cassID (putKeys table schema @ map fst ?N))
                       @ '') values ('' @ join '','' (replicate (length (putDeclared req schema)) ''?'')
                       @ '')'' @ suffix
          \<and> params q = params condRes @ map (\<lambda>kv. bindValue (snd kv)) ?N @ ifPs
       else query q = ''update '' @ cassID keyspace @ ''.'' @ cassID (putTable table)
                       @ '' set '' @ join '' = ?,'' (map cassID (map fst ?N))
                       @ '' = ? '' @ '' where '' @ query condRes @ suffix
          \<and> params q = map (\<lambda>kv. bindValue (snd kv)) ?N @ params condRes @ ifPs)"
    using st q by (simp split: if_splits)
  from bc' strs nif sf main show ?thesis by blast
qed

theorem insert_or_update_witness:
  "buildPutQuery 5 (JObj [(''attributes'', JObj [(''key'', JStr ''a''), (''body'', JStr ''b'')]),
                          (''if'', JObj [(''body'', JStr ''old'')])]) ''ks'' ''data'' tidSchema
   = Inr (JObj [(''attributes'', JObj [(''key'', JStr ''a''), (''body'', JStr ''b'')]),
                (''if'', JObj [(''body'', JStr ''old'')])],
          \<lparr>query = ''update '' @ dquote @ ''ks'' @ dquote @ ''.'' @ dquote @ ''data'' @ dquote
                     @ '' set '' @ dquote @ ''body'' @ dquote @ '' = ?  where ''
                     @ dquote @ ''key'' @ dquote @ '' = ? AND '' @ dquote @ ''_tid'' @ dquote @ '' = ?''
                     @ '' if '' @ dquote @ ''body'' @ dquote @ '' = ?'',
           params = [JStr ''b'', JStr ''a'', tidFromDate 5, JStr ''old'']\<rparr>)
   \<and> keyMap 5 (JObj [(''key'', JStr ''a''), (''body'', JStr ''b'')]) (putKeys ''data'' tidSchema)
       = [(''key'', JStr ''a''), (''_tid'', tidFromDate 5)]
   \<and> buildPutQuery 5 (JObj [(''attributes'', JObj [(''key'', JStr ''a''), (''body'', JStr ''b'')]),
                          (''if'', JStr '' Not   EXISTS '')]) ''ks'' ''data'' tidSchema
   = Inr (JObj [(''attributes'', JObj [(''key'', JStr ''a''), (''body'', JStr ''b'')]),
                (''if'', JStr ''not exists'')],
          \<lparr>query = ''insert into '' @ dquote @ ''ks'' @ dquote @ ''.'' @ dquote @ ''data'' @ dquote
                     @ '' ('' @ dquote @ ''key'' @ dquote @ '','' @ dquote @ ''_tid'' @ dquote @ '',''
                     @ dquote @ ''body'' @ dquote @ '') values (?,?) if not exists '',
           params = [JStr ''a'', tidFromDate 5, JStr ''b'']\<rparr>)
   \<and> normalizedIf (JStr (''NOT'' @ [CHR 0xA0, CHR 0x09] @ ''Exists'' @ [CHR 0xA0])) = JStr ''not exists''"
proof -
  let ?req = "JObj [(''attributes'', JObj [(''key'', JStr ''a''), (''body'', JStr ''b'')]),
                          (''if'', JObj [(''body'', JStr ''old'')])]"
  let ?q = "\<lparr>query = ''update '' @ dquote @ ''ks'' @ dquote @ ''.'' @ dquote @ ''data'' @ dquote
                     @ '' set '' @ dquote @ ''body'' @ dquote @ '' = ?  where ''
                     @ dquote @ ''key'' @ dquote @ '' = ? AND '' @ dquote @ ''_tid'' @ dquote @ '' = ?''
                     @ '' if '' @ dquote @ ''body'' @ dquote @ '' = ?'',
           params = [JStr ''b'', JStr ''a'', tidFromDate 5, JStr ''old'']\<rparr>"
  let ?ins = "JObj [(''attributes'', JObj [(''key'', JStr ''a''), (''body'', JStr ''b'')]),
                          (''if'', JStr '' Not   EXISTS '')]"
  have e: "buildPutQuery 5 ?req ''ks'' ''data'' tidSchema = Inr (?req, ?q)" by code_simp
  have k: "keyMap 5 (JObj [(''key'', JStr ''a''), (''body'', JStr ''b'')]) (putKeys ''data'' tidSchema)
       = [(''key'', JStr ''a''), (''_tid'', tidFromDate 5)]" by code_simp
  have i: "buildPutQuery 5 ?ins ''ks'' ''data'' tidSchema
   = Inr (JObj [(''attributes'', JObj [(''key'', JStr ''a''), (''body'', JStr ''b'')]),
                (''if'', JStr ''not exists'')],
          \<lparr>query = ''insert into '' @ dquote @ ''ks'' @ dquote @ ''.'' @ dquote @ ''data'' @ dquote
                     @ '' ('' @ dquote @ ''key'' @ dquote @ '','' @ dquote @ ''_tid'' @ dquote @ '',''
                     @ dquote @ ''body'' @ dquote @ '') values (?,?) if not exists '',
           params = [JStr ''a'', tidFromDate 5, JStr ''b'']\<rparr>)" by code_simp
  have n: "normalizedIf (JStr (''NOT'' @ [CHR 0xA0, CHR 0x09] @ ''Exists'' @ [CHR 0xA0])) = JStr ''not exists''"
    by code_simp
  from insert_or_update [OF e] have "js_get ?req ''if'' = normalizedIf (js_get ?req ''if'')" by blast
  with e k i n show ?thesis by simp
qed


text \<open>
  Claim C4: on a table whose \<^verbatim>\<open>_indexAttributes\<close> contain \<open>_tid\<close>, \<^verbatim>\<open>buildPutQuery\<close>
  binds the \<open>_tid\<close> that \<^verbatim>\<open>req.attributes\<close> supplies, and synthesizes a v1 UUID from the
  current time only when none is supplied.

  As stated the claim fails: the key loop assigns \<^verbatim>\<open>tidFromDate(new Date())\<close> for the
  key \<open>_tid\<close> without looking at the request, and the supplied value is bound nowhere.
\<close>

theorem tid_always_synthesized_counterexample:
  "buildPutQuery 5 (JObj [(''attributes'', JObj [(''key'', JStr ''a''), (''_tid'', JStr ''supplied'')])])
       ''ks'' ''data'' tidSchema
   = Inr (JObj [(''attributes'', JObj [(''key'', JStr ''a''), (''_tid'', JStr ''supplied'')])],
          \<lparr>query = ''insert into '' @ dquote @ ''ks'' @ dquote @ ''.'' @ dquote @ ''data'' @ dquote
                     @ '' ('' @ dquote @ ''key'' @ dquote @ '','' @ dquote @ ''_tid'' @ dquote
                     @ '') values (?,?)'',
           params = [JStr ''a'', tidFromDate 5]\<rparr>)
   \<and> JStr ''supplied'' \<notin> set [JStr ''a'', tidFromDate 5]"
  by code_simp

text \<open>
  Claim C4, amended: on a table whose \<^verbatim>\<open>_indexAttributes\<close> contain \<open>_tid\<close>, whenever
  \<^verbatim>\<open>buildPutQuery\<close> returns, the key map holds the synthesized v1 UUID of the current
  time (fixed node and clock sequence) for \<open>_tid\<close>, and this UUID is among the bound
  parameters, whether or not the request supplies a \<open>_tid\<close>; the supplied value does not
  reach the statement: two requests that differ only in the supplied \<open>_tid\<close> compile to
  the same statement.
\<close>

theorem tid_always_synthesized:
  assumes "truthy (js_get (putIndexAttributes table schema) ''_tid'')"
  shows "(\<forall>req' q. buildPutQuery now req keyspace table schema = Inr (req', q) \<longrightarrow>
            (\<exists>keyCond. buildCondition (JObj (keyMap now (js_get req ''attributes'') (putKeys table schema))) = Inr keyCond
               \<and> map_of (keyMap now (js_get req ''attributes'') (putKeys table schema)) ''_tid'' = Some (tidFromDate now)
               \<and> tidFromDate now \<in> set (params keyCond) \<and> set (params keyCond) \<subseteq> set (params q)))
       \<and> (\<forall>v v'. v \<noteq> JUndef \<and> v \<noteq> JNull \<and> v' \<noteq> JUndef \<and> v' \<noteq> JNull \<longrightarrow>
            statementOf (buildPutQuery now (withTid v req) keyspace table schema)
          = statementOf (buildPutQuery now (withTid v' req) keyspace table schema))"
proof -
  have p1: "\<exists>keyCond. buildCondition (JObj (keyMap now (js_get req ''attributes'') (putKeys table schema))) = Inr keyCond
               \<and> map_of (keyMap now (js_get req ''attributes'') (putKeys table schema)) ''_tid'' = Some (tidFromDate now)
               \<and> tidFromDate now \<in> set (params keyCond) \<and> set (params keyCond) \<subseteq> set (params q)"
    if ok: "buildPutQuery now req keyspace table schema = Inr (req', q)" for req' q
  proof -
    let ?K = "keyMap now (js_get req ''attributes'') (putKeys table schema)"
    from buildPutQuery_Inr [OF ok] obtain iakvs condRes st where
      ia: "putIndexAttributes table schema = JObj iakvs"
      and bc: "buildCondition (JObj (keyMap now (js_get req ''attributes'') (map fst iakvs))) = Inr condRes"
      and pst: "putStatement keyspace (putTable table) (map fst iakvs)
               (map fst (nonKeyAttrs (js_get schema ''attributes'') (JObj iakvs) (supplied req)))
               (map (\<lambda>kv. bindValue (snd kv)) (nonKeyAttrs (js_get schema ''attributes'') (JObj iakvs) (supplied req)))
               (replicate (length (filter (declared (js_get schema ''attributes'')) (supplied req))) ''?'')
               (js_get req' ''if'') condRes = Inr st"
      and pc: "putCondition (js_get req' ''if'') st = Inr q"
      by blast
    have pk: "putKeys table schema = map fst iakvs" using ia by (rule putKeys_obj)
    have mem: "''_tid'' \<in> set (putKeys table schema)"
      using assms ia pk truthy_get_key [of iakvs "''_tid''"] by simp
    then have mo: "map_of ?K ''_tid'' = Some (tidFromDate now)" by (simp add: map_of_keyMap)
    then have inK: "(''_tid'', tidFromDate now) \<in> set ?K" by (rule map_of_SomeD)
    from bc pk have bc': "buildCondition (JObj ?K) = Inr condRes" by simp
    from buildCondition_obj_Inr [OF bc'] obtain cs ps where
      cl: "condLoop (JObj ?K) ?K = Inr (cs, ps)" and ps: "params condRes = ps" by blast
    have "is_String (tidFromDate now)" by (simp add: tidFromDate_def)
    from condLoop_params_member [OF cl inK this] ps have t: "tidFromDate now \<in> set (params condRes)" by simp
    from putCondition_Inr [OF pc] putStatement_params [OF pst]
    have "set (params condRes) \<subseteq> set (params q)" by auto
    with bc' mo t show ?thesis by blast
  qed
  have p2: "statementOf (buildPutQuery now (withTid v req) keyspace table schema)
          = statementOf (buildPutQuery now (withTid v' req) keyspace table schema)"
    if "v \<noteq> JUndef \<and> v \<noteq> JNull \<and> v' \<noteq> JUndef \<and> v' \<noteq> JNull" for v v'
  proof (cases "putIndexAttributes table schema")
    case (JObj iakvs)
    with assms have t: "truthy (js_get (JObj iakvs) ''_tid'')" by simp
    have "statementOf (putBody now (withTid v req) keyspace (putTable table) schema iakvs)
        = statementOf (putBody now (withTid v' req) keyspace (putTable table) schema iakvs)"
      using t that by (intro putBody_withTid) auto
    then show ?thesis using JObj
      by (simp add: buildPutQuery_def statementOf_def)
  qed (simp_all add: buildPutQuery_def)
  from p1 p2 show ?thesis by blast
qed

theorem tid_always_synthesized_witness:
  "truthy (js_get (putIndexAttributes ''data'' tidSchema) ''_tid'')
   \<and> statementOf (buildPutQuery 5 (withTid (JStr ''supplied'')
                     (JObj [(''attributes'', JObj [(''key'', JStr ''a'')])])) ''ks'' ''data'' tidSchema)
     = statementOf (buildPutQuery 5 (withTid (JStr ''other'')
                     (JObj [(''attributes'', JObj [(''key'', JStr ''a'')])])) ''ks'' ''data'' tidSchema)
   \<and> statementOf (buildPutQuery 5 (withTid (JStr ''supplied'')
                     (JObj [(''attributes'', JObj [(''key'', JStr ''a'')])])) ''ks'' ''data'' tidSchema)
     = Inr \<lparr>query = ''insert into '' @ dquote @ ''ks'' @ dquote @ ''.'' @ dquote @ ''data'' @ dquote
                     @ '' ('' @ dquote @ ''key'' @ dquote @ '','' @ dquote @ ''_tid'' @ dquote
                     @ '') values (?,?)'',
            params = [JStr ''a'', tidFromDate 5]\<rparr>"
proof -
  have h: "truthy (js_get (putIndexAttributes ''data'' tidSchema) ''_tid'')" by code_simp
  have e: "statementOf (buildPutQuery 5 (withTid (JStr ''supplied'')
                     (JObj [(''attributes'', JObj [(''key'', JStr ''a'')])])) ''ks'' ''data'' tidSchema)
     = Inr \<lparr>query = ''insert into '' @ dquote @ ''ks'' @ dquote @ ''.'' @ dquote @ ''data'' @ dquote
                     @ '' ('' @ dquote @ ''key'' @ dquote @ '','' @ dquote @ ''_tid'' @ dquote
                     @ '') values (?,?)'',
            params = [JStr ''a'', tidFromDate 5]\<rparr>" by code_simp
  from tid_always_synthesized [OF h, of 5 "JObj [(''attributes'', JObj [(''key'', JStr ''a'')])]" "''ks''"]
  have "statementOf (buildPutQuery 5 (withTid (JStr ''supplied'')
                     (JObj [(''attributes'', JObj [(''key'', JStr ''a'')])])) ''ks'' ''data'' tidSchema)
     = statementOf (buildPutQuery 5 (withTid (JStr ''other'')
                     (JObj [(''attributes'', JObj [(''key'', JStr ''a'')])])) ''ks'' ''data'' tidSchema)"
    by blast
  with h e show ?thesis by simp
qed


section \<open>Fan-out of a put\<close>

lemma buildPutQuery_shape:
  assumes "buildPutQuery now req ks table schema = Inr (req', q)"
  shows "targets q ks (putTable table)
       \<and> (\<exists>keyCond N I.
             buildCondition (JObj (keyMap now (js_get req ''attributes'') (putKeys table schema))) = Inr keyCond
           \<and> (params q = params keyCond @ N @ I \<or> params q = N @ params keyCond @ I))"
proof -
  from buildPutQuery_Inr [OF assms] obtain iakvs condRes st where
    ia: "putIndexAttributes table schema = JObj iakvs"
    and bc: "buildCondition (JObj (keyMap now (js_get req ''attributes'') (map fst iakvs))) = Inr condRes"
    and pst: "putStatement ks (putTable table) (map fst iakvs)
               (map fst (nonKeyAttrs (js_get schema ''attributes'') (JObj iakvs) (supplied req)))
               (map (\<lambda>kv. bindValue (snd kv)) (nonKeyAttrs (js_get schema ''attributes'') (JObj iakvs) (supplied req)))
               (replicate (length (filter (declared (js_get schema ''attributes'')) (supplied req))) ''?'')
               (js_get req' ''if'') condRes = Inr st"
    and pc: "putCondition (js_get req' ''if'') st = Inr q"
    by blast
  have pk: "putKeys table schema = map fst iakvs" using ia by (rule putKeys_obj)
  let ?ins = "''insert into '' @ cassID ks @ ''.'' @ cassID (putTable table) @ '' ''"
  let ?upd = "''update '' @ cassID ks @ ''.'' @ cassID (putTable table) @ '' ''"
  from putStatement_Inr [OF pst] obtain rest N where
    st: "(query st = ?ins @ rest \<and> params st = params condRes @ N)
       \<or> (query st = ?upd @ rest \<and> params st = N @ params condRes)"
    by (auto split: if_splits)
  from putCondition_Inr [OF pc] obtain suffix ifPs where
    q: "query q = query st @ suffix" "params q = params st @ ifPs" by blast
  from st q have "query q = ?ins @ (rest @ suffix) \<or> query q = ?upd @ (rest @ suffix)" by auto
  then have t: "targets q ks (putTable table)"
    unfolding targets_def Let_def by (metis append_eq_conv_conj)
  from st q have "params q = params condRes @ N @ ifPs \<or> params q = N @ params condRes @ ifPs" by auto
  with bc pk t show ?thesis by auto
qed

lemma putTable_data: "putTable ''data'' = ''data''"
  by (simp add: putTable_def)

lemma putTable_by_rev: "putTable ''by_rev'' = ''i_by_rev''"
  by (simp add: putTable_def)

lemma putKeys_data: "putKeys ''data'' schema = primaryIndexAttributes schema"
  by (simp add: putKeys_def putIndexAttributes_def primaryIndexAttributes_def)

lemma putKeys_by_rev: "putKeys ''by_rev'' (companion schema ''by_rev'') = companionIndexAttributes schema ''by_rev''"
  by (simp add: putKeys_def putIndexAttributes_def companionIndexAttributes_def)

lemma priv_put_data:
  assumes "priv_put schemaCache clock keyspace req consistency JUndef = Inr call"
  shows "\<exists>req1 q1. buildPutQuery (clock 0) req keyspace ''data'' (schemaCache keyspace) = Inr (req1, q1)
       \<and> (if truthy (js_get (schemaCache keyspace) ''secondaryIndexes'')
          then \<exists>sis batch. for_in (js_get (schemaCache keyspace) ''secondaryIndexes'') = Inr sis
                 \<and> fanOut schemaCache clock keyspace 1 req1 (map fst sis) = Inr batch
                 \<and> call = executeCql (q1 # batch) consistency
          else call = executeCql [q1] consistency)"
  using assms
  by (auto simp: priv_put_def Let_def split: if_splits sum.splits prod.splits)

lemma fanOut_single:
  assumes "fanOut schemaCache clock keyspace n req [item] = Inr batch"
  shows "\<exists>req' q. buildPutQuery (clock n) req keyspace item (companion (schemaCache keyspace) item) = Inr (req', q)
       \<and> batch = [q]"
  using assms
  by (auto simp: Let_def companion_def split: if_splits sum.splits prod.splits)

text \<open>
  Claim C8: for a put against a table whose cached schema declares exactly one secondary
  index, named \<open>by_rev\<close>, whenever \<^verbatim>\<open>_put\<close> dispatches, it has composed exactly two
  statements: the one \<^verbatim>\<open>buildPutQuery\<close> gives for the \<open>data\<close> table with the cached
  schema and the one it gives for the index with the cached companion schema. They target
  \<open>data\<close> and \<open>i_by_rev\<close>, the key parameters of each are those of the key predicate
  over the table's own \<^verbatim>\<open>_indexAttributes\<close> in their order, and the two are dispatched
  as one prepared batch. When the schema has no secondary indexes, the one statement is
  executed directly as a prepared statement.
\<close>

theorem put_fan_out:
  assumes "priv_put schemaCache clock keyspace req consistency JUndef = Inr call"
  shows "(js_get (schemaCache keyspace) ''secondaryIndexes'' = JObj [(''by_rev'', d)] \<longrightarrow>
           (\<exists>req1 q1 req2 q2.
              buildPutQuery (clock 0) req keyspace ''data'' (schemaCache keyspace) = Inr (req1, q1)
            \<and> buildPutQuery (clock 1) req1 keyspace ''by_rev'' (companion (schemaCache keyspace) ''by_rev'')
                = Inr (req2, q2)
            \<and> call = Batch_p [q1, q2] (JObj [(''consistency'', consistency), (''prepared'', JBool True)])
            \<and> targets q1 keyspace ''data'' \<and> targets q2 keyspace ''i_by_rev''
            \<and> (\<exists>keyCond N I.
                  buildCondition (JObj (keyMap (clock 0) (js_get req ''attributes'')
                                     (primaryIndexAttributes (schemaCache keyspace)))) = Inr keyCond
                \<and> (params q1 = params keyCond @ N @ I \<or> params q1 = N @ params keyCond @ I))
            \<and> (\<exists>keyCond N I.
                  buildCondition (JObj (keyMap (clock 1) (js_get req1 ''attributes'')
                                     (companionIndexAttributes (schemaCache keyspace) ''by_rev''))) = Inr keyCond
                \<and> (params q2 = params keyCond @ N @ I \<or> params q2 = N @ params keyCond @ I))))
       \<and> (js_get (schemaCache keyspace) ''secondaryIndexes'' = JUndef
          \<or> js_get (schemaCache keyspace) ''secondaryIndexes'' = JObj [] \<longrightarrow>
           (\<exists>req1 q1.
              buildPutQuery (clock 0) req keyspace ''data'' (schemaCache keyspace) = Inr (req1, q1)
            \<and> call = Execute_p (query q1) (params q1)
                       (JObj [(''consistency'', consistency), (''prepared'', JBool True)])
            \<and> targets q1 keyspace ''data''))"
proof -
  let ?sis = "js_get (schemaCache keyspace) ''secondaryIndexes''"
  from priv_put_data [OF assms] obtain req1 q1 where
    b1: "buildPutQuery (clock 0) req keyspace ''data'' (schemaCache keyspace) = Inr (req1, q1)"
    and rest: "if truthy ?sis
          then \<exists>sis batch. for_in ?sis = Inr sis
                 \<and> fanOut schemaCache clock keyspace 1 req1 (map fst sis) = Inr batch
                 \<and> call = executeCql (q1 # batch) consistency
          else call = executeCql [q1] consistency"
    by blast
  note s1 = buildPutQuery_shape [OF b1, unfolded putTable_data putKeys_data]
  have one: "\<exists>req1 q1 req2 q2.
              buildPutQuery (clock 0) req keyspace ''data'' (schemaCache keyspace) = Inr (req1, q1)
            \<and> buildPutQuery (clock 1) req1 keyspace ''by_rev'' (companion (schemaCache keyspace) ''by_rev'')
                = Inr (req2, q2)
            \<and> call = Batch_p [q1, q2] (JObj [(''consistency'', consistency), (''prepared'', JBool True)])
            \<and> targets q1 keyspace ''data'' \<and> targets q2 keyspace ''i_by_rev''
            \<and> (\<exists>keyCond N I.
                  buildCondition (JObj (keyMap (clock 0) (js_get req ''attributes'')
                                     (primaryIndexAttributes (schemaCache keyspace)))) = Inr keyCond
                \<and> (params q1 = params keyCond @ N @ I \<or> params q1 = N @ params keyCond @ I))
            \<and> (\<exists>keyCond N I.
                  buildCondition (JObj (keyMap (clock 1) (js_get req1 ''attributes'')
                                     (companionIndexAttributes (schemaCache keyspace) ''by_rev''))) = Inr keyCond
                \<and> (params q2 = params keyCond @ N @ I \<or> params q2 = N @ params keyCond @ I))"
    if h: "?sis = JObj [(''by_rev'', d)]"
  proof -
    from rest h obtain batch where
      f: "fanOut schemaCache clock keyspace 1 req1 [''by_rev''] = Inr batch"
      and c: "call = executeCql (q1 # batch) consistency"
      by auto
    from fanOut_single [OF f] obtain req2 q2 where
      b2: "buildPutQuery (clock 1) req1 keyspace ''by_rev'' (companion (schemaCache keyspace) ''by_rev'') = Inr (req2, q2)"
      and b: "batch = [q2]" by blast
    note s2 = buildPutQuery_shape [OF b2, unfolded putTable_by_rev putKeys_by_rev]
    from c b have "call = Batch_p [q1, q2] (JObj [(''consistency'', consistency), (''prepared'', JBool True)])"
      by (simp add: executeCql_def)
    with b1 b2 s1 s2 show ?thesis by blast
  qed
  have none: "\<exists>req1 q1.
              buildPutQuery (clock 0) req keyspace ''data'' (schemaCache keyspace) = Inr (req1, q1)
            \<and> call = Execute_p (query q1) (params q1)
                       (JObj [(''consistency'', consistency), (''prepared'', JBool True)])
            \<and> targets q1 keyspace ''data''"
    if h: "?sis = JUndef \<or> ?sis = JObj []"
  proof -
    from rest h have "call = executeCql [q1] consistency"
      by (auto split: if_splits)
    then have "call = Execute_p (query q1) (params q1)
                       (JObj [(''consistency'', consistency), (''prepared'', JBool True)])"
      by (simp add: executeCql_def)
    with b1 s1 show ?thesis by blast
  qed
  from one none show ?thesis by blast
qed

theorem put_fan_out_witness:
  "js_get (revCache ''ks'') ''secondaryIndexes''
     = JObj [(''by_rev'', JObj [(''hash'', JStr ''rev''), (''static'', JStr ''__consistentUpTo''),
                               (''range'', JArr [JStr ''key'', JStr ''_tid''])])]
   \<and> (case priv_put revCache (\<lambda>n. if n = 0 then 100 else 200) ''ks''
             (JObj [(''attributes'', JObj [(''key'', JStr ''k''), (''rev'', JStr ''r''), (''body'', JStr ''b'')])])
             (JNum 1) JUndef of
        Inr (Batch_p [q1, q2] options) \<Rightarrow>
          targets q1 ''ks'' ''data'' \<and> targets q2 ''ks'' ''i_by_rev''
          \<and> params q1 = [JStr ''r'', JStr ''b'', JStr ''k'']
          \<and> params q2 = [JStr ''k'', JStr ''r'', tidFromDate 200]
          \<and> primaryIndexAttributes (revCache ''ks'') = [''key'']
          \<and> companionIndexAttributes (revCache ''ks'') ''by_rev'' = [''rev'', ''_tid'']
      | _ \<Rightarrow> False)
   \<and> js_get tidSchema ''secondaryIndexes'' = JUndef
   \<and> (case priv_put (\<lambda>k. tidSchema) (\<lambda>n. 100) ''ks''
             (JObj [(''attributes'', JObj [(''key'', JStr ''k''), (''body'', JStr ''b'')])])
             (JNum 1) JUndef of
        Inr (Execute_p cql ps options) \<Rightarrow> ps = [JStr ''b'', JStr ''k'', tidFromDate 100]
                                       \<and> js_get options ''prepared'' = JBool True
      | _ \<Rightarrow> False)"
proof -
  let ?req = "JObj [(''attributes'', JObj [(''key'', JStr ''k''), (''rev'', JStr ''r''), (''body'', JStr ''b'')])]"
  let ?plain = "JObj [(''attributes'', JObj [(''key'', JStr ''k''), (''body'', JStr ''b'')])]"
  let ?d = "JObj [(''hash'', JStr ''rev''), (''static'', JStr ''__consistentUpTo''),
                               (''range'', JArr [JStr ''key'', JStr ''_tid''])]"
  have sis: "js_get (revCache ''ks'') ''secondaryIndexes'' = JObj [(''by_rev'', ?d)]" by code_simp
  have "\<not> isl (priv_put revCache (\<lambda>n. if n = 0 then 100 else 200) ''ks'' ?req (JNum 1) JUndef)" by code_simp
  then obtain call where e: "priv_put revCache (\<lambda>n. if n = 0 then 100 else 200) ''ks'' ?req (JNum 1) JUndef = Inr call"
    by (cases "priv_put revCache (\<lambda>n. if n = 0 then 100 else 200) ''ks'' ?req (JNum 1) JUndef") auto
  from put_fan_out [OF e, of ?d] sis obtain q1 q2 where
    c: "call = Batch_p [q1, q2] (JObj [(''consistency'', JNum 1), (''prepared'', JBool True)])"
    and t: "targets q1 ''ks'' ''data''" "targets q2 ''ks'' ''i_by_rev''"
    by blast
  have p: "(case priv_put revCache (\<lambda>n. if n = 0 then 100 else 200) ''ks'' ?req (JNum 1) JUndef of
        Inr (Batch_p [q1, q2] options) \<Rightarrow>
            params q1 = [JStr ''r'', JStr ''b'', JStr ''k'']
          \<and> params q2 = [JStr ''k'', JStr ''r'', tidFromDate 200]
      | _ \<Rightarrow> False)" by code_simp
  have ia: "primaryIndexAttributes (revCache ''ks'') = [''key'']"
    "companionIndexAttributes (revCache ''ks'') ''by_rev'' = [''rev'', ''_tid'']" by code_simp+
  have first: "(case priv_put revCache (\<lambda>n. if n = 0 then 100 else 200) ''ks'' ?req (JNum 1) JUndef of
        Inr (Batch_p [q1, q2] options) \<Rightarrow>
          targets q1 ''ks'' ''data'' \<and> targets q2 ''ks'' ''i_by_rev''
          \<and> params q1 = [JStr ''r'', JStr ''b'', JStr ''k'']
          \<and> params q2 = [JStr ''k'', JStr ''r'', tidFromDate 200]
          \<and> primaryIndexAttributes (revCache ''ks'') = [''key'']
          \<and> companionIndexAttributes (revCache ''ks'') ''by_rev'' = [''rev'', ''_tid'']
      | _ \<Rightarrow> False)"
    using p e c t ia by simp
  have n: "js_get tidSchema ''secondaryIndexes'' = JUndef" by code_simp
  have second: "(case priv_put (\<lambda>k. tidSchema) (\<lambda>n. 100) ''ks'' ?plain (JNum 1) JUndef of
        Inr (Execute_p cql ps options) \<Rightarrow> ps = [JStr ''b'', JStr ''k'', tidFromDate 100]
                                       \<and> js_get options ''prepared'' = JBool True
      | _ \<Rightarrow> False)" by code_simp
  from sis first n second show ?thesis by blast
qed


end
